theory Spec2Isabelle
  imports Main "HOL-Library.Sublist"
begin

section \<open>Data model of \<^verbatim>\<open>src/App.tsx\<close>\<close>

text \<open>
  The source file holds two versions of the component; the model follows the later one,
  which scrolls and collects (\<^verbatim>\<open>collectTweets\<close>) and exports
  (\<^verbatim>\<open>copyJsonToClipboard\<close>). \<^verbatim>\<open>scrapeComments\<close> is the same in both.

  The interfaces \<^verbatim>\<open>Comment\<close> and \<^verbatim>\<open>Tweet\<close> of the source. The field
  \<^verbatim>\<open>text\<close> of a comment is written \<open>text_c\<close> (the plain name is a keyword of
  Isabelle); the fields the two interfaces share are told apart by their qualified names
  (\<open>Comment.userName\<close>, \<open>Tweet.userName\<close>).
\<close>

record Comment =
  text_c :: string
  userName :: string
  timestamp :: string
  likes :: string
  replies :: string

record Tweet =
  tweet :: string
  userName :: string
  timestamp :: string
  likes :: string
  retweets :: string
  comments :: "Comment list"
  tweetUrl :: string

section \<open>The Collector: \<^verbatim>\<open>collectTweets\<close> / \<^verbatim>\<open>scrollAndCollect\<close>\<close>

text \<open>
  What the collector reads of one \<^verbatim>\<open>[data-testid="cellInnerDiv"]\<close> node: the result of
  each \<^verbatim>\<open>querySelector\<close> (\<open>None\<close> is JavaScript's \<^verbatim>\<open>null\<close>).
  \<open>tweetLink\<close> is the \<^verbatim>\<open>href\<close> of the first \<^verbatim>\<open>a[href*="/status/"]\<close> below the node;
  \<open>tweetTextEl\<close> and \<open>userNameEl\<close> are the \<^verbatim>\<open>textContent\<close> of the elements found;
  for \<open>timeEl\<close>, \<open>likeEl\<close> and \<open>retweetEl\<close> the inner option is the attribute read from
  the element (\<^verbatim>\<open>datetime\<close>, \<^verbatim>\<open>aria-label\<close>), which may be missing.
\<close>

record cell =
  tweetLink :: "string option"
  tweetTextEl :: "string option"
  userNameEl :: "string option"
  timeEl :: "string option option"
  likeEl :: "string option option"
  retweetEl :: "string option option"

text \<open>
  What the document shows at one tick of the interval: the nodes that
  \<^verbatim>\<open>querySelectorAll\<close> returns, in document order, and
  \<^verbatim>\<open>document.body.scrollHeight\<close> as read after the scroll to the bottom.
\<close>

record snapshot =
  cells :: "cell list"
  scrollHeight :: nat

text \<open>The variables that \<^verbatim>\<open>scrollAndCollect\<close> closes over.\<close>

record collector =
  previousHeight :: nat
  scrollAttempts :: nat
  processedTweetUrls :: "string set"
  tweets :: "Tweet list"

definition maxScrollAttempts :: nat where
  "maxScrollAttempts = 50"

text \<open>\<^verbatim>\<open>s.split(' ')[0]\<close>: the part of \<open>s\<close> before its first space.\<close>

definition split_first :: "string \<Rightarrow> string" where
  "split_first s = takeWhile (\<lambda>c. c \<noteq> CHR '' '') s"

text \<open>\<^verbatim>\<open>el ? el.textContent || '' : ''\<close>\<close>

definition textContent_or_empty :: "string option \<Rightarrow> string" where
  "textContent_or_empty el = (case el of None \<Rightarrow> '''' | Some s \<Rightarrow> s)"

text \<open>\<^verbatim>\<open>el ? el.getAttribute('datetime') || '' : ''\<close>\<close>

definition attribute_or_empty :: "string option option \<Rightarrow> string" where
  "attribute_or_empty el =
     (case el of None \<Rightarrow> '''' | Some None \<Rightarrow> '''' | Some (Some s) \<Rightarrow> s)"

text \<open>\<^verbatim>\<open>el ? el.getAttribute('aria-label')?.split(' ')[0] || '0' : '0'\<close>\<close>

definition count_or_zero :: "string option option \<Rightarrow> string" where
  "count_or_zero el =
     (case el of
        None \<Rightarrow> ''0''
      | Some None \<Rightarrow> ''0''
      | Some (Some s) \<Rightarrow> (if split_first s = '''' then ''0'' else split_first s))"

text \<open>The object literal built for an accepted node.\<close>

definition extract_tweet :: "cell \<Rightarrow> string \<Rightarrow> Tweet" where
  "extract_tweet c u =
     \<lparr>tweet = textContent_or_empty (tweetTextEl c),
      userName = textContent_or_empty (userNameEl c),
      timestamp = attribute_or_empty (timeEl c),
      likes = count_or_zero (likeEl c),
      retweets = count_or_zero (retweetEl c),
      comments = [],
      tweetUrl = u\<rparr>"

text \<open>
  The body of \<^verbatim>\<open>tweetElements.forEach\<close>: a node with no URL (\<^verbatim>\<open>null\<close> or the empty
  string, both falsy) or with a URL already in the set is skipped; any other node is pushed
  and its URL added to the set.
\<close>

definition process_cell :: "collector \<Rightarrow> cell \<Rightarrow> collector" where
  "process_cell s c =
     (case tweetLink c of
        None \<Rightarrow> s
      | Some u \<Rightarrow>
          if u = '''' \<or> u \<in> processedTweetUrls s then s
          else s\<lparr>tweets := tweets s @ [extract_tweet c u],
                 processedTweetUrls := insert u (processedTweetUrls s)\<rparr>)"

text \<open>
  One run of the interval's callback up to the test: the scan of the nodes, the read of
  the height (returned by \<open>scrollHeight\<close> of the snapshot) and the increment of the counter.
\<close>

definition scan :: "collector \<Rightarrow> snapshot \<Rightarrow> collector" where
  "scan s d = (foldl process_cell s (cells d))\<lparr>scrollAttempts := Suc (scrollAttempts s)\<rparr>"

text \<open>
  The test that ends the interval, on the state after the scan; \<open>target\<close> is
  \<^verbatim>\<open>window._targetTweetCount\<close>.
\<close>

definition stop :: "int \<Rightarrow> collector \<Rightarrow> nat \<Rightarrow> bool" where
  "stop target s currentHeight \<longleftrightarrow>
     currentHeight = previousHeight s
     \<or> int (length (tweets s)) \<ge> target
     \<or> scrollAttempts s \<ge> maxScrollAttempts"

text \<open>
  The interval: the callback runs every 1500 ms until it clears the interval and resolves
  the promise. \<open>doc n\<close> is what the document shows at the callback's run number \<open>n\<close>
  (counted from 0, which is the value of \<open>scrollAttempts\<close> when the run starts). The
  function returns the variables as they are when the promise is resolved.
\<close>

function scrollInterval :: "(nat \<Rightarrow> snapshot) \<Rightarrow> int \<Rightarrow> collector \<Rightarrow> collector" where
  "scrollInterval doc target s =
     (let d = doc (scrollAttempts s);
          s' = scan s d;
          currentHeight = scrollHeight d
      in if stop target s' currentHeight then s'
         else scrollInterval doc target (s'\<lparr>previousHeight := currentHeight\<rparr>))"
  by pat_completeness auto
termination
  by (relation "measure (\<lambda>(doc, target, s). maxScrollAttempts - scrollAttempts s)")
     (auto simp: stop_def scan_def)

declare scrollInterval.simps [simp del]

definition initial :: collector where
  "initial = \<lparr>previousHeight = 0, scrollAttempts = 0, processedTweetUrls = {}, tweets = []\<rparr>"

text \<open>The value the promise of \<^verbatim>\<open>scrollAndCollect\<close> resolves with.\<close>

definition scrollAndCollect :: "(nat \<Rightarrow> snapshot) \<Rightarrow> int \<Rightarrow> Tweet list" where
  "scrollAndCollect doc target = tweets (scrollInterval doc target initial)"

section \<open>The page-automation surface: \<^verbatim>\<open>chrome.tabs\<close> and \<^verbatim>\<open>chrome.scripting\<close>\<close>

text \<open>What awaiting a promise of the chrome API gives: it rejects with a message or resolves.\<close>

datatype 'a promise = Rejects string | Resolves 'a

text \<open>
  The two fields of \<^verbatim>\<open>chrome.tabs.Tab\<close> the source reads, \<^verbatim>\<open>id\<close> and \<^verbatim>\<open>url\<close>
  (\<open>id\<close> is a constant of HOL, hence the prefix). Both are optional in the API.
\<close>

record Tab =
  tab_id :: "int option"
  tab_url :: "string option"

text \<open>
  The calls a run makes to the API, in the order it makes them:
  \<^item> \<open>Query\<close>: \<^verbatim>\<open>chrome.tabs.query({ active: true, currentWindow: true })\<close>;
  \<^item> \<open>Update i u\<close>: \<^verbatim>\<open>chrome.tabs.update(i, { url: u })\<close>, a navigation of tab \<open>i\<close>;
  \<^item> \<open>InjectCount i n\<close>: the script setting \<^verbatim>\<open>window._targetTweetCount = n\<close> in tab \<open>i\<close>;
  \<^item> \<open>InjectCollect i\<close>: \<^verbatim>\<open>collectTweets\<close> run in tab \<open>i\<close>;
  \<^item> \<open>Settle\<close>: the wait of 3000 ms after a navigation;
  \<^item> \<open>InjectComments i\<close>: the comment extraction run in tab \<open>i\<close>.
\<close>

datatype call =
    Query
  | Update int string
  | InjectCount int int
  | InjectCollect int
  | Settle
  | InjectComments int

text \<open>
  The browser as the run meets it. Each field answers one kind of call; its argument is the
  list of the calls made so far in the run, the call being answered last, so an answer may
  depend on everything the run has done before. \<^verbatim>\<open>executeScript\<close> resolves with an array
  of injection results, one per frame, whose \<^verbatim>\<open>result\<close> may be missing (\<open>None\<close>).
\<close>

record chrome =
  tabs_query :: "call list \<Rightarrow> Tab list promise"
  tabs_update :: "call list \<Rightarrow> unit promise"
  inject_count :: "call list \<Rightarrow> unit promise"
  inject_collect :: "call list \<Rightarrow> Tweet list option list promise"
  inject_comments :: "call list \<Rightarrow> Comment list option list promise"

text \<open>
  What a \<^verbatim>\<open>try\<close> block can catch: an \<^verbatim>\<open>Error\<close> thrown by the source itself, the
  \<^verbatim>\<open>TypeError\<close> of reading a property of \<^verbatim>\<open>undefined\<close> (the argument is the property),
  or the rejection of an API promise.
\<close>

datatype js_error = Error string | TypeError string | Rejection string

fun message :: "js_error \<Rightarrow> string" where
  "message (Error m) = m"
| "message (TypeError p) =
     ''Cannot read properties of undefined (reading '' @ [CHR 0x27] @ p @ [CHR 0x27] @ '')''"
| "message (Rejection m) = m"

section \<open>The Orchestrator: \<^verbatim>\<open>scrapeComments\<close> and \<^verbatim>\<open>scrapeTweets\<close>\<close>

text \<open>
  The \<^verbatim>\<open>try\<close> block of \<^verbatim>\<open>scrapeComments\<close>, started after the calls \<open>tr\<close>: its outcome
  and the calls made when it ends. \<^verbatim>\<open>const [tab] = \<dots>\<close> on an empty array leaves
  \<^verbatim>\<open>tab\<close> undefined, and \<^verbatim>\<open>tab.id\<close> throws; \<^verbatim>\<open>!tab.id\<close> holds of a missing id and
  of 0; \<^verbatim>\<open>result.result || []\<close> replaces a missing result.
\<close>

definition scrapeComments_try ::
  "chrome \<Rightarrow> call list \<Rightarrow> string \<Rightarrow> (js_error + Comment list) \<times> call list" where
  "scrapeComments_try env tr url =
     (let tr1 = tr @ [Query] in
      case tabs_query env tr1 of
        Rejects m \<Rightarrow> (Inl (Rejection m), tr1)
      | Resolves tabs \<Rightarrow>
          (case tabs of
             [] \<Rightarrow> (Inl (TypeError ''id''), tr1)
           | tab # _ \<Rightarrow>
               (case tab_id tab of
                  None \<Rightarrow> (Inl (Error ''No active tab found''), tr1)
                | Some i \<Rightarrow>
                    if i = 0 then (Inl (Error ''No active tab found''), tr1)
                    else
                      (let tr2 = tr1 @ [Update i (''https://twitter.com'' @ url)] in
                       case tabs_update env tr2 of
                         Rejects m \<Rightarrow> (Inl (Rejection m), tr2)
                       | Resolves _ \<Rightarrow>
                           (let tr3 = tr2 @ [Settle, InjectComments i] in
                            case inject_comments env tr3 of
                              Rejects m \<Rightarrow> (Inl (Rejection m), tr3)
                            | Resolves results \<Rightarrow>
                                (case results of
                                   [] \<Rightarrow> (Inl (TypeError ''result''), tr3)
                                 | result # _ \<Rightarrow>
                                     (Inr (case result of None \<Rightarrow> [] | Some cs \<Rightarrow> cs),
                                      tr3)))))))"

text \<open>\<^verbatim>\<open>scrapeComments\<close>: whatever the block throws is caught, and \<^verbatim>\<open>[]\<close> returned.\<close>

definition scrapeComments :: "chrome \<Rightarrow> call list \<Rightarrow> string \<Rightarrow> Comment list \<times> call list" where
  "scrapeComments env tr url =
     (case scrapeComments_try env tr url of
        (Inl e, tr') \<Rightarrow> ([], tr')
      | (Inr cs, tr') \<Rightarrow> (cs, tr'))"

text \<open>
  The loop \<^verbatim>\<open>for (let i = 0; i < tweets.length; i++)\<close> of \<^verbatim>\<open>scrapeTweets\<close>, from
  index \<open>i\<close> on: the array as the loop leaves it, and the calls made.
\<close>

function comments_loop ::
  "chrome \<Rightarrow> nat \<Rightarrow> Tweet list \<Rightarrow> call list \<Rightarrow> Tweet list \<times> call list" where
  "comments_loop env i ts tr =
     (if i < length ts then
        (if tweetUrl (ts ! i) \<noteq> '''' then
           (case scrapeComments env tr (tweetUrl (ts ! i)) of
              (cs, tr') \<Rightarrow> comments_loop env (Suc i) (ts[i := (ts ! i)\<lparr>comments := cs\<rparr>]) tr')
         else comments_loop env (Suc i) ts tr)
      else (ts, tr))"
  by pat_completeness auto
termination
  by (relation "measure (\<lambda>(env, i, ts, tr). length ts - i)") auto

declare comments_loop.simps [simp del]

text \<open>
  The \<^verbatim>\<open>try\<close> block of \<^verbatim>\<open>scrapeTweets\<close> with \<^verbatim>\<open>tweetCount\<close> = \<open>n\<close>: the error it
  throws or the array it passes to \<^verbatim>\<open>setScrapedData\<close>, and the calls made.
  \<^verbatim>\<open>!result?.result?.length\<close> holds of an empty array of results, of a missing result
  and of an empty list of tweets.
\<close>

definition scrapeTweets_try :: "chrome \<Rightarrow> int \<Rightarrow> (js_error + Tweet list) \<times> call list" where
  "scrapeTweets_try env n =
     (let tr1 = [Query] in
      case tabs_query env tr1 of
        Rejects m \<Rightarrow> (Inl (Rejection m), tr1)
      | Resolves tabs \<Rightarrow>
          (case tabs of
             [] \<Rightarrow> (Inl (TypeError ''id''), tr1)
           | tab # _ \<Rightarrow>
               (case tab_id tab of
                  None \<Rightarrow> (Inl (Error ''No active tab found''), tr1)
                | Some i \<Rightarrow>
                    if i = 0 then (Inl (Error ''No active tab found''), tr1)
                    else
                      (let tr2 = tr1 @ [InjectCount i n] in
                       case inject_count env tr2 of
                         Rejects m \<Rightarrow> (Inl (Rejection m), tr2)
                       | Resolves _ \<Rightarrow>
                           (let tr3 = tr2 @ [InjectCollect i] in
                            case inject_collect env tr3 of
                              Rejects m \<Rightarrow> (Inl (Rejection m), tr3)
                            | Resolves results \<Rightarrow>
                                (case results of
                                   [] \<Rightarrow> (Inl (Error ''No tweets found on this page''), tr3)
                                 | None # _ \<Rightarrow>
                                     (Inl (Error ''No tweets found on this page''), tr3)
                                 | Some ts # _ \<Rightarrow>
                                     if length ts = 0
                                     then (Inl (Error ''No tweets found on this page''), tr3)
                                     else
                                       (case comments_loop env 0 ts tr3 of
                                          (ts', tr4) \<Rightarrow>
                                            (case tab_url tab of
                                               None \<Rightarrow> (Inr ts', tr4)
                                             | Some u \<Rightarrow>
                                                 if u = '''' then (Inr ts', tr4)
                                                 else
                                                   (let tr5 = tr4 @ [Update i u] in
                                                    case tabs_update env tr5 of
                                                      Rejects m \<Rightarrow> (Inl (Rejection m), tr5)
                                                    | Resolves _ \<Rightarrow> (Inr ts', tr5))))))))))"

text \<open>
  The state of the component that the claims are about; the progress text and the copy
  status are left out.
\<close>

record ui =
  scrapedData :: "Tweet list option"
  isLoading :: bool
  error :: "string option"
  tweetCount :: int
  searchTerm :: string

text \<open>
  \<^verbatim>\<open>scrapeTweets\<close>: the state when the function has run, and the calls made. An error
  caught leaves \<open>scrapedData\<close> as it was.
\<close>

definition scrapeTweets :: "chrome \<Rightarrow> ui \<Rightarrow> ui \<times> call list" where
  "scrapeTweets env s =
     (let s1 = s\<lparr>isLoading := True, error := None\<rparr> in
      case scrapeTweets_try env (tweetCount s) of
        (Inr ts, tr) \<Rightarrow> (s1\<lparr>scrapedData := Some ts, isLoading := False\<rparr>, tr)
      | (Inl e, tr) \<Rightarrow>
          (s1\<lparr>error := Some (''Error scraping tweets: '' @ message e), isLoading := False\<rparr>, tr))"

section \<open>The export: \<^verbatim>\<open>copyJsonToClipboard\<close>\<close>

text \<open>The values \<^verbatim>\<open>JSON.stringify\<close> is given: objects keep the order of their keys.\<close>

datatype json =
    JString string
  | JNumber int
  | JArray "json list"
  | JObject "(string \<times> json) list"

definition format_comment :: "Comment \<Rightarrow> json" where
  "format_comment c =
     JObject
       [(''content'', JString (text_c c)),
        (''metadata'', JObject
           [(''author'', JString (Comment.userName c)),
            (''postedAt'', JString (Comment.timestamp c)),
            (''engagement'', JObject
               [(''likes'', JString (Comment.likes c)),
                (''replies'', JString (replies c))])])]"

definition format_tweet :: "Tweet \<Rightarrow> json" where
  "format_tweet t =
     JObject
       [(''content'', JString (tweet t)),
        (''metadata'', JObject
           [(''author'', JString (Tweet.userName t)),
            (''postedAt'', JString (Tweet.timestamp t)),
            (''engagement'', JObject
               [(''likes'', JString (Tweet.likes t)),
                (''retweets'', JString (retweets t)),
                (''commentCount'', JNumber (int (length (comments t))))]),
            (''url'', JString (tweetUrl t))]),
        (''comments'', JArray (map format_comment (comments t)))]"

text \<open>
  \<^verbatim>\<open>formattedData\<close>; \<open>now\<close> is the value of \<^verbatim>\<open>new Date().toISOString()\<close>.
\<close>

definition formattedData :: "Tweet list \<Rightarrow> string \<Rightarrow> string \<Rightarrow> json" where
  "formattedData ts term now =
     JObject
       [(''totalTweets'', JNumber (int (length ts))),
        (''searchItem'', JString term),
        (''scrapeTimestamp'', JString now),
        (''tweets'', JArray (map format_tweet ts))]"

text \<open>
  \<^verbatim>\<open>copyJsonToClipboard\<close>: the value that is stringified and written to the clipboard,
  none when there is no scraped data.
\<close>

definition copyJsonToClipboard :: "ui \<Rightarrow> string \<Rightarrow> json option" where
  "copyJsonToClipboard s now =
     (case scrapedData s of
        None \<Rightarrow> None
      | Some ts \<Rightarrow> Some (formattedData ts (searchTerm s) now))"

section \<open>Vocabulary of the properties\<close>

text \<open>
  The URL a node is a candidate with: the \<^verbatim>\<open>href\<close> found below it, when there is one
  and it is not the empty string.
\<close>

definition candidate_url :: "cell \<Rightarrow> string option" where
  "candidate_url c =
     (case tweetLink c of None \<Rightarrow> None | Some u \<Rightarrow> if u = '''' then None else Some u)"

text \<open>The candidate URLs a snapshot shows, in document order, repetitions included.\<close>

definition urls_shown :: "snapshot \<Rightarrow> string list" where
  "urls_shown d = List.map_filter candidate_url (cells d)"

text \<open>The candidate URLs shown at the ticks \<open>m, \<dots>, n - 1\<close>, in the order they are met.\<close>

definition urls_over :: "(nat \<Rightarrow> snapshot) \<Rightarrow> nat \<Rightarrow> nat \<Rightarrow> string list" where
  "urls_over doc m n = concat (map (\<lambda>k. urls_shown (doc k)) [m..<n])"

text \<open>
  The specification's "first-seen distinct" sequence: every element once, at the place of
  its first occurrence.
\<close>

fun first_seen :: "'a list \<Rightarrow> 'a list" where
  "first_seen [] = []"
| "first_seen (x # xs) = x # first_seen (removeAll x xs)"

text \<open>The set of processed URLs is the set of the URLs of the tweets pushed.\<close>

definition consistent :: "collector \<Rightarrow> bool" where
  "consistent s \<longleftrightarrow> processedTweetUrls s = set (map tweetUrl (tweets s))"

text \<open>
  The calls made when the loop of \<^verbatim>\<open>scrapeTweets\<close>, started after the calls \<open>tr\<close> on the
  array \<open>ts\<close>, reaches index \<open>k\<close>: those of the loop run on the first \<open>k\<close> tweets.
\<close>

definition calls_before :: "chrome \<Rightarrow> Tweet list \<Rightarrow> call list \<Rightarrow> nat \<Rightarrow> call list" where
  "calls_before env ts tr k = snd (comments_loop env 0 (take k ts) tr)"

text \<open>
  What its own turn of the loop makes of a tweet, when the calls made before are \<open>tr\<close>: a
  tweet with a URL gets the comments fetched under that URL, any other is left as it is.
\<close>

definition turn :: "chrome \<Rightarrow> call list \<Rightarrow> Tweet \<Rightarrow> Tweet" where
  "turn env tr t =
     (if tweetUrl t \<noteq> '''' then t\<lparr>comments := fst (scrapeComments env tr (tweetUrl t))\<rparr>
      else t)"

text \<open>
  The navigation back to the address of the tab as it was queried first: the call, made
  only for an address that is there and not empty, and the answer the browser gives after
  the calls \<open>tr\<close> (resolved when the call is not made).
\<close>

definition restoring_call :: "Tab \<Rightarrow> int \<Rightarrow> call list" where
  "restoring_call tab i =
     (case tab_url tab of None \<Rightarrow> [] | Some u \<Rightarrow> if u = '''' then [] else [Update i u])"

definition restoring :: "chrome \<Rightarrow> Tab \<Rightarrow> int \<Rightarrow> call list \<Rightarrow> unit promise" where
  "restoring env tab i tr =
     (case tab_url tab of
        None \<Rightarrow> Resolves ()
      | Some u \<Rightarrow> if u = '''' then Resolves () else tabs_update env (tr @ [Update i u]))"

text \<open>
  The collector's injection brought no tweets: no injection result, a result that is
  missing, or an empty list.
\<close>

fun no_tweets :: "Tweet list option list \<Rightarrow> bool" where
  "no_tweets [] = True"
| "no_tweets (None # _) = True"
| "no_tweets (Some ts # _) = (ts = [])"

text \<open>
  No tab can be had after the calls \<open>tr\<close>: the query made next rejects, resolves with no
  tab, or resolves with a first tab that has no id.
\<close>

definition no_tab_at :: "chrome \<Rightarrow> call list \<Rightarrow> bool" where
  "no_tab_at env tr =
     (case tabs_query env (tr @ [Query]) of
        Rejects m \<Rightarrow> True
      | Resolves [] \<Rightarrow> True
      | Resolves (tab # _) \<Rightarrow> tab_id tab = None \<or> tab_id tab = Some 0)"

text \<open>
  Reading an exported value: the keys of an object in their order, the value under a key,
  an object without some of its keys, and a value with the names of all its keys blanked
  (what is left is the nesting and the values in their places).
\<close>

fun keys :: "json \<Rightarrow> string list" where
  "keys (JObject kvs) = map fst kvs"
| "keys _ = []"

fun field :: "string \<Rightarrow> json \<Rightarrow> json option" where
  "field k (JObject kvs) = map_of kvs k"
| "field k _ = None"

fun without :: "string list \<Rightarrow> json \<Rightarrow> json" where
  "without ks (JObject kvs) = JObject (filter (\<lambda>kv. fst kv \<notin> set ks) kvs)"
| "without ks j = j"

fun unkeyed :: "json \<Rightarrow> json" where
  "unkeyed (JString s) = JString s"
| "unkeyed (JNumber n) = JNumber n"
| "unkeyed (JArray js) = JArray (map unkeyed js)"
| "unkeyed (JObject kvs) = JObject (map (\<lambda>kv. ([], unkeyed (snd kv))) kvs)"

text \<open>
  The nested record of the specification, in the specification's words:
  \<^verbatim>\<open>{ totalItems, items: [{ content, metadata:{author, postedAt, engagement:{likes, shares,
  replyCount}, url}, replies:[{content, metadata:{author, postedAt, engagement:{likes,
  replyCount}}}] }] }\<close>, an Item being a tweet and a Reply a comment. The reply count of an
  Item is the number of its replies.
\<close>

definition reply_shape :: "Comment \<Rightarrow> json" where
  "reply_shape c =
     JObject
       [(''content'', JString (text_c c)),
        (''metadata'', JObject
           [(''author'', JString (Comment.userName c)),
            (''postedAt'', JString (Comment.timestamp c)),
            (''engagement'', JObject
               [(''likes'', JString (Comment.likes c)),
                (''replyCount'', JString (replies c))])])]"

definition item_shape :: "Tweet \<Rightarrow> json" where
  "item_shape t =
     JObject
       [(''content'', JString (tweet t)),
        (''metadata'', JObject
           [(''author'', JString (Tweet.userName t)),
            (''postedAt'', JString (Tweet.timestamp t)),
            (''engagement'', JObject
               [(''likes'', JString (Tweet.likes t)),
                (''shares'', JString (retweets t)),
                (''replyCount'', JNumber (int (length (comments t))))]),
            (''url'', JString (tweetUrl t))]),
        (''replies'', JArray (map reply_shape (comments t)))]"

definition harvest_shape :: "Tweet list \<Rightarrow> json" where
  "harvest_shape ts =
     JObject [(''totalItems'', JNumber (int (length ts))), (''items'', JArray (map item_shape ts))]"

section \<open>Example inputs\<close>

text \<open>A node of which only the link is given.\<close>

definition bare_cell :: "string option \<Rightarrow> cell" where
  "bare_cell l = \<lparr>tweetLink = l, tweetTextEl = None, userNameEl = None, timeEl = None,
     likeEl = None, retweetEl = None\<rparr>"

text \<open>A document that never changes: three nodes with three URLs, 1000 pixels high.\<close>

definition static_three :: "nat \<Rightarrow> snapshot" where
  "static_three n =
     \<lparr>cells = [bare_cell (Some ''/a/status/1''), bare_cell (Some ''/b/status/2''),
        bare_cell (Some ''/c/status/3'')],
      scrollHeight = 1000\<rparr>"

text \<open>A document that grows at every tick and never shows a node with a link.\<close>

definition restless_empty :: "nat \<Rightarrow> snapshot" where
  "restless_empty n = \<lparr>cells = [bare_cell None], scrollHeight = Suc n\<rparr>"

text \<open>
  A document that grows at every tick and always shows the same six nodes: three with one
  URL, two with URLs of their own, one without a link.
\<close>

definition with_duplicates :: "nat \<Rightarrow> snapshot" where
  "with_duplicates n =
     \<lparr>cells = [bare_cell (Some ''/a/status/1''), bare_cell (Some ''/b/status/2''),
        bare_cell (Some ''/a/status/1''), bare_cell None, bare_cell (Some ''/c/status/3''),
        bare_cell (Some ''/a/status/1'')],
      scrollHeight = 500 * Suc n\<rparr>"

text \<open>A tab with an id and an address, two collected tweets and a comment.\<close>

definition open_tab :: Tab where
  "open_tab = \<lparr>tab_id = Some 7, tab_url = Some ''https://twitter.com/home''\<rparr>"

definition tweet_a :: Tweet where
  "tweet_a = \<lparr>tweet = ''first'', userName = ''ann'', timestamp = ''2024-05-01T10:00:00.000Z'',
     likes = ''3'', retweets = ''1'', comments = [], tweetUrl = ''/ann/status/1''\<rparr>"

definition tweet_b :: Tweet where
  "tweet_b = \<lparr>tweet = ''second'', userName = ''bob'', timestamp = ''2024-05-01T11:00:00.000Z'',
     likes = ''0'', retweets = ''0'', comments = [], tweetUrl = ''/bob/status/2''\<rparr>"

definition reply_c :: Comment where
  "reply_c = \<lparr>text_c = ''nice'', userName = ''cy'', timestamp = ''2024-05-01T12:00:00.000Z'',
     likes = ''2'', replies = ''0''\<rparr>"

text \<open>A browser in which every call succeeds.\<close>

definition steady :: chrome where
  "steady = \<lparr>tabs_query = (\<lambda>tr. Resolves [open_tab]),
     tabs_update = (\<lambda>tr. Resolves ()),
     inject_count = (\<lambda>tr. Resolves ()),
     inject_collect = (\<lambda>tr. Resolves [Some [tweet_a, tweet_b]]),
     inject_comments = (\<lambda>tr. Resolves [Some [reply_c]])\<rparr>"

text \<open>The first tab queried has no id; and a page on which the collector finds nothing.\<close>

definition detached :: chrome where
  "detached = steady\<lparr>tabs_query := (\<lambda>tr. Resolves [\<lparr>tab_id = None, tab_url = None\<rparr>])\<rparr>"

definition empty_feed :: chrome where
  "empty_feed = steady\<lparr>inject_collect := (\<lambda>tr. Resolves [Some []])\<rparr>"

text \<open>The active tab shows a page that scripts cannot be injected into.\<close>

definition restricted_page :: chrome where
  "restricted_page = steady\<lparr>inject_count := (\<lambda>tr. Rejects ''Cannot access a chrome:// URL'')\<rparr>"

text \<open>Every navigation is refused, those of the fetches and the one back.\<close>

definition dragging :: chrome where
  "dragging = steady\<lparr>tabs_update :=
     (\<lambda>tr. Rejects ''Tabs cannot be edited right now (user may be dragging a tab).'')\<rparr>"

text \<open>The tab is closed once the tweets are collected: no tab is found, no tab can be navigated.\<close>

definition tab_closed :: chrome where
  "tab_closed = steady\<lparr>tabs_query := (\<lambda>tr. if tr = [Query] then Resolves [open_tab] else Resolves []),
     tabs_update := (\<lambda>tr. Rejects ''No tab with id: 7.'')\<rparr>"

text \<open>Only the navigation to the second tweet is refused.\<close>

definition second_fetch_fails :: chrome where
  "second_fetch_fails = steady\<lparr>tabs_update :=
     (\<lambda>tr. if last tr = Update 7 ''https://twitter.com/bob/status/2''
           then Rejects ''Tabs cannot be edited right now (user may be dragging a tab).''
           else Resolves ())\<rparr>"

text \<open>Only the query of the first fetch, the fourth call of the run, finds no tab.\<close>

definition tab_lost_once :: chrome where
  "tab_lost_once = steady\<lparr>tabs_query :=
     (\<lambda>tr. if length tr = 4 then Resolves [] else Resolves [open_tab])\<rparr>"

text \<open>The component before a run, and after a run that found one tweet with one comment.\<close>

definition idle :: ui where
  "idle = \<lparr>scrapedData = None, isLoading = False, error = None, tweetCount = 50,
     searchTerm = ''cats''\<rparr>"

definition shown :: ui where
  "shown = \<lparr>scrapedData = Some [tweet_a\<lparr>comments := [reply_c]\<rparr>], isLoading = False,
     error = None, tweetCount = 50, searchTerm = ''cats''\<rparr>"

section \<open>The Collector: lemmas\<close>

lemma set_first_seen [simp]: "set (first_seen xs) = set xs"
  by (induction xs rule: first_seen.induct) auto

lemma distinct_first_seen [simp]: "distinct (first_seen xs)"
  by (induction xs rule: first_seen.induct) auto

lemma first_seen_distinct: "distinct xs \<Longrightarrow> first_seen xs = xs"
  by (induction xs) auto

lemma length_first_seen: "length (first_seen xs) = card (set xs)"
  by (metis distinct_card distinct_first_seen set_first_seen)

lemma first_seen_append:
  "first_seen (xs @ ys) = first_seen xs @ first_seen (filter (\<lambda>y. y \<notin> set xs) ys)"
proof (induction xs arbitrary: ys rule: first_seen.induct)
  case 1 show ?case by simp
next
  case (2 x xs)
  have "filter (\<lambda>y. y \<notin> set (removeAll x xs)) (removeAll x ys) = filter (\<lambda>y. y \<notin> set (x # xs)) ys"
    by (induction ys) auto
  with 2[of "removeAll x ys"] show ?case by simp
qed

lemma forEach_urls:
  "consistent s \<Longrightarrow>
   consistent (foldl process_cell s cs) \<and>
   map tweetUrl (tweets (foldl process_cell s cs)) =
     map tweetUrl (tweets s) @
     first_seen (filter (\<lambda>u. u \<notin> processedTweetUrls s) (List.map_filter candidate_url cs))"
proof (induction cs arbitrary: s)
  case Nil
  then show ?case by simp
next
  case (Cons c cs)
  show ?case
  proof (cases "candidate_url c")
    case None
    then have "process_cell s c = s"
      by (auto simp: candidate_url_def process_cell_def split: option.splits if_splits)
    with Cons None show ?thesis by simp
  next
    case (Some u)
    then have link: "tweetLink c = Some u" "u \<noteq> ''''"
      by (auto simp: candidate_url_def split: option.splits if_splits)
    show ?thesis
    proof (cases "u \<in> processedTweetUrls s")
      case True
      with link have "process_cell s c = s" by (simp add: process_cell_def)
      with Cons Some True show ?thesis by simp
    next
      case False
      let ?s = "process_cell s c"
      from link False have s': "tweets ?s = tweets s @ [extract_tweet c u]"
        "processedTweetUrls ?s = insert u (processedTweetUrls s)"
        by (simp_all add: process_cell_def)
      have c': "consistent ?s"
        using Cons.prems s' by (simp add: consistent_def extract_tweet_def)
      have "removeAll u (filter (\<lambda>u. u \<notin> processedTweetUrls s) xs) =
            filter (\<lambda>v. v \<notin> insert u (processedTweetUrls s)) xs" for xs
        by (induction xs) auto
      with Cons.IH[OF c'] s' Some False show ?thesis
        by (simp add: extract_tweet_def)
    qed
  qed
qed

lemma forEach_frame:
  "scrollAttempts (foldl process_cell s cs) = scrollAttempts s \<and>
   previousHeight (foldl process_cell s cs) = previousHeight s"
  by (induction cs arbitrary: s) (auto simp: process_cell_def split: option.splits)

lemma process_cell_prefix: "prefix (tweets s) (tweets (process_cell s c))"
  by (simp add: process_cell_def split: option.splits)

lemma forEach_prefix: "prefix (tweets s) (tweets (foldl process_cell s cs))"
proof (induction cs arbitrary: s)
  case Nil show ?case by simp
next
  case (Cons c cs)
  from process_cell_prefix[of s c] Cons[of "process_cell s c"] show ?case
    by (auto intro: prefix_order.trans)
qed

lemma scan_frame [simp]:
  "scrollAttempts (scan s d) = Suc (scrollAttempts s)"
  "previousHeight (scan s d) = previousHeight s"
  by (simp_all add: scan_def forEach_frame)

lemma scan_prefix: "prefix (tweets s) (tweets (scan s d))"
  by (simp add: scan_def forEach_prefix)

lemma consistent_scrollAttempts [simp]:
  "consistent (s\<lparr>scrollAttempts := n\<rparr>) = consistent s"
  by (simp add: consistent_def)

lemma scan_urls:
  assumes "consistent s"
  shows "consistent (scan s d)"
    and "map tweetUrl (tweets (scan s d)) =
         map tweetUrl (tweets s) @
         first_seen (filter (\<lambda>u. u \<notin> processedTweetUrls s) (urls_shown d))"
proof -
  note fe = forEach_urls[OF assms, of "cells d"]
  from fe show "consistent (scan s d)" by (simp add: scan_def)
  from fe show "map tweetUrl (tweets (scan s d)) =
         map tweetUrl (tweets s) @
         first_seen (filter (\<lambda>u. u \<notin> processedTweetUrls s) (urls_shown d))"
    by (simp add: scan_def urls_shown_def)
qed

lemma first_seen_filter_append:
  "first_seen (filter (\<lambda>u. u \<notin> A) (xs @ ys)) =
   first_seen (filter (\<lambda>u. u \<notin> A) xs) @
   first_seen (filter (\<lambda>u. u \<notin> A \<union> set xs) ys)"
proof -
  have "filter (\<lambda>y. y \<notin> set (filter (\<lambda>u. u \<notin> A) xs)) (filter (\<lambda>u. u \<notin> A) ys) =
        filter (\<lambda>u. u \<notin> A \<union> set xs) ys"
    by (induction ys) auto
  then show ?thesis by (simp add: first_seen_append)
qed

lemma consistent_previousHeight [simp]:
  "consistent (s\<lparr>previousHeight := h\<rparr>) = consistent s"
  by (simp add: consistent_def)

lemma scrollInterval_attempts:
  "scrollAttempts s < scrollAttempts (scrollInterval doc target s) \<and>
   scrollAttempts (scrollInterval doc target s) \<le> max (Suc (scrollAttempts s)) maxScrollAttempts"
proof (induction doc target s rule: scrollInterval.induct)
  case (1 doc target s)
  let ?d = "doc (scrollAttempts s)"
  show ?case
  proof (cases "stop target (scan s ?d) (scrollHeight ?d)")
    case True
    then show ?thesis by (subst (1 2) scrollInterval.simps) (simp add: Let_def)
  next
    case False
    from 1[OF refl refl refl False] False show ?thesis
      by (subst (1 2) scrollInterval.simps) (auto simp: Let_def stop_def)
  qed
qed

lemma scrollInterval_prefix: "prefix (tweets s) (tweets (scrollInterval doc target s))"
proof (induction doc target s rule: scrollInterval.induct)
  case (1 doc target s)
  let ?d = "doc (scrollAttempts s)"
  show ?case
  proof (cases "stop target (scan s ?d) (scrollHeight ?d)")
    case True
    then show ?thesis
      by (subst scrollInterval.simps) (simp add: Let_def scan_prefix)
  next
    case False
    from 1[OF refl refl refl False] have
      "prefix (tweets (scan s ?d))
         (tweets (scrollInterval doc target ((scan s ?d)\<lparr>previousHeight := scrollHeight ?d\<rparr>)))"
      by simp
    with scan_prefix[of s ?d] False show ?thesis
      by (subst scrollInterval.simps) (auto simp: Let_def intro: prefix_order.trans)
  qed
qed

lemma scrollInterval_stops:
  "stop target (scrollInterval doc target s)
     (scrollHeight (doc (scrollAttempts (scrollInterval doc target s) - 1)))"
proof (induction doc target s rule: scrollInterval.induct)
  case (1 doc target s)
  let ?d = "doc (scrollAttempts s)"
  show ?case
  proof (cases "stop target (scan s ?d) (scrollHeight ?d)")
    case True
    then show ?thesis by (subst (1 2) scrollInterval.simps) (simp add: Let_def)
  next
    case False
    from 1[OF refl refl refl False] False show ?thesis
      by (subst (1 2) scrollInterval.simps) (simp add: Let_def)
  qed
qed

lemma urls_over_step:
  assumes "m < n"
  shows "urls_over doc m n = urls_shown (doc m) @ urls_over doc (Suc m) n"
  using assms by (simp add: urls_over_def upt_conv_Cons)

lemma scrollInterval_urls:
  "consistent s \<Longrightarrow>
   consistent (scrollInterval doc target s) \<and>
   map tweetUrl (tweets (scrollInterval doc target s)) =
     map tweetUrl (tweets s) @
     first_seen (filter (\<lambda>u. u \<notin> processedTweetUrls s)
       (urls_over doc (scrollAttempts s) (scrollAttempts (scrollInterval doc target s))))"
proof (induction doc target s rule: scrollInterval.induct)
  case (1 doc target s)
  let ?d = "doc (scrollAttempts s)"
  let ?s = "scan s ?d"
  note sc = scan_urls[OF "1.prems", of ?d]
  show ?case
  proof (cases "stop target ?s (scrollHeight ?d)")
    case True
    then have r: "scrollInterval doc target s = ?s"
      by (subst scrollInterval.simps) (simp add: Let_def)
    show ?thesis unfolding r using sc by (simp add: urls_over_def)
  next
    case False
    let ?s' = "?s\<lparr>previousHeight := scrollHeight ?d\<rparr>"
    have r: "scrollInterval doc target s = scrollInterval doc target ?s'"
      using False by (subst scrollInterval.simps) (simp add: Let_def)
    have c: "consistent ?s'" using sc(1) by simp
    note IH = 1(1)[OF refl refl refl False c, folded r]
    have lt: "scrollAttempts s < scrollAttempts (scrollInterval doc target s)"
      using scrollInterval_attempts by blast
    have seen: "processedTweetUrls ?s =
        processedTweetUrls s \<union> set (urls_shown ?d)"
      using sc "1.prems" by (auto simp: consistent_def)
    let ?n = "scrollAttempts (scrollInterval doc target s)"
    have "map tweetUrl (tweets (scrollInterval doc target s)) =
          map tweetUrl (tweets ?s) @
          first_seen (filter (\<lambda>u. u \<notin> processedTweetUrls s \<union> set (urls_shown ?d))
            (urls_over doc (Suc (scrollAttempts s)) ?n))"
      using IH seen by simp
    also have "\<dots> = map tweetUrl (tweets s) @
          first_seen (filter (\<lambda>u. u \<notin> processedTweetUrls s)
            (urls_shown ?d @ urls_over doc (Suc (scrollAttempts s)) ?n))"
      unfolding first_seen_filter_append sc(2) by simp
    finally show ?thesis
      using IH by (simp only: urls_over_step[OF lt] simp_thms)
  qed
qed

lemma initial_consistent: "consistent initial"
  by (simp add: consistent_def initial_def)

lemma scrollAndCollect_urls:
  "map tweetUrl (scrollAndCollect doc target) =
   first_seen (urls_over doc 0 (scrollAttempts (scrollInterval doc target initial)))"
  using scrollInterval_urls[OF initial_consistent, of doc target]
  by (simp add: scrollAndCollect_def initial_def)

section \<open>The Collector: claims\<close>

text \<open>
  Claim C2. The collector resolves for every document and every target: the interval is a
  total function, it runs its callback at least once and at most 50 times, and the state it
  returns satisfies the test under which the source clears the interval and resolves. A
  document that never shows a node with a URL makes it resolve with the empty list.
\<close>
theorem collect_resolves_within_ceiling:
  "1 \<le> scrollAttempts (scrollInterval doc target initial) \<and>
   scrollAttempts (scrollInterval doc target initial) \<le> 50 \<and>
   stop target (scrollInterval doc target initial)
     (scrollHeight (doc (scrollAttempts (scrollInterval doc target initial) - 1))) \<and>
   ((\<forall>n. urls_shown (doc n) = []) \<longrightarrow> scrollAndCollect doc target = [])"
proof -
  let ?r = "scrollInterval doc target initial"
  have "scrollAttempts initial < scrollAttempts ?r"
    "scrollAttempts ?r \<le> max (Suc (scrollAttempts initial)) maxScrollAttempts"
    using scrollInterval_attempts[of initial doc target] by simp_all
  then have "1 \<le> scrollAttempts ?r" "scrollAttempts ?r \<le> 50"
    by (simp_all add: initial_def maxScrollAttempts_def)
  moreover have "scrollAndCollect doc target = []" if "\<forall>n. urls_shown (doc n) = []"
  proof -
    have "urls_over doc 0 k = []" for k
      using that by (simp add: urls_over_def)
    with scrollAndCollect_urls[of doc target] show ?thesis by simp
  qed
  ultimately show ?thesis
    using scrollInterval_stops[of target doc initial] by blast
qed

theorem collect_resolves_within_ceiling_witness:
  "(\<forall>n. urls_shown (restless_empty n) = []) \<and>
   scrollAndCollect restless_empty 5 = [] \<and>
   scrollAttempts (scrollInterval restless_empty 5 initial) = 50"
proof -
  have h: "\<forall>n. urls_shown (restless_empty n) = []"
    by (simp add: urls_shown_def restless_empty_def bare_cell_def candidate_url_def)
  have a: "scrollAttempts (scrollInterval restless_empty 5 initial) = 50" by code_simp
  from h a collect_resolves_within_ceiling[of restless_empty 5] show ?thesis by blast
qed

text \<open>
  Claim C5. The URLs of the resolved list are the candidate URLs shown over the ticks that
  ran, each once, at the place of its first occurrence; and ticks only append: the list
  before a scan is a prefix of the list after it, and the list at any tick is a prefix of
  the list the interval ends with.
\<close>
theorem first_seen_order:
  "map tweetUrl (scrollAndCollect doc target) =
     first_seen (urls_over doc 0 (scrollAttempts (scrollInterval doc target initial))) \<and>
   prefix (tweets s) (tweets (scan s d)) \<and>
   prefix (tweets s) (tweets (scrollInterval doc target s))"
  using scrollAndCollect_urls scan_prefix scrollInterval_prefix by blast

text \<open>
  Claim C1. No two tweets of a resolved list have the same URL. When every tick shows the
  same candidate URLs, \<open>N > 0\<close> of them equal to \<open>u\<close> and the \<open>M\<close> others distinct, the
  list has \<open>M + 1\<close> tweets, in the order of the first occurrences, however many ticks ran.
\<close>
theorem dedup_by_url:
  "distinct (map tweetUrl (scrollAndCollect doc target)) \<and>
   ((\<forall>n. urls_shown (doc n) = us) \<and> count_list us u = N \<and> 0 < N \<and>
    distinct (removeAll u us) \<and> length (removeAll u us) = M \<longrightarrow>
    length (scrollAndCollect doc target) = M + 1 \<and>
    map tweetUrl (scrollAndCollect doc target) = first_seen us)"
proof -
  let ?n = "scrollAttempts (scrollInterval doc target initial)"
  note eq = scrollAndCollect_urls[of doc target]
  have d: "distinct (map tweetUrl (scrollAndCollect doc target))"
    unfolding eq by simp
  have "length (scrollAndCollect doc target) = M + 1 \<and>
        map tweetUrl (scrollAndCollect doc target) = first_seen us"
    if st: "\<forall>n. urls_shown (doc n) = us" and c: "count_list us u = N" "0 < N"
      and o: "distinct (removeAll u us)" "length (removeAll u us) = M"
  proof -
    have pos: "0 < ?n" using scrollInterval_attempts[of initial doc target] by simp
    have rep: "urls_over doc 0 (Suc k) = us @ urls_over doc 1 (Suc k)" for k
      using urls_over_step[of 0 "Suc k" doc] st by simp
    have sub: "set (urls_over doc m k) \<subseteq> set us" for m k
      using st by (auto simp: urls_over_def)
    obtain k where k: "?n = Suc k" using pos by (cases ?n) auto
    have "first_seen (urls_over doc 0 ?n) = first_seen us"
    proof -
      have "filter (\<lambda>y. y \<notin> set us) (urls_over doc 1 (Suc k)) = []"
        using sub[of 1 "Suc k"] by (auto simp: filter_empty_conv)
      then show ?thesis unfolding k rep first_seen_append by simp
    qed
    with eq have m: "map tweetUrl (scrollAndCollect doc target) = first_seen us" by simp
    have "u \<in> set us" using c by (metis count_list_0_iff less_numeral_extra(3))
    then have "set us = insert u (set (removeAll u us))" by auto
    moreover have "u \<notin> set (removeAll u us)" by simp
    ultimately have "card (set us) = Suc (card (set (removeAll u us)))"
      by (metis List.finite_set card_insert_disjoint)
    also have "\<dots> = M + 1" using distinct_card[OF o(1)] o(2) by (simp only: Suc_eq_plus1)
    finally have "length (first_seen us) = M + 1" by (simp add: length_first_seen)
    with m show ?thesis by (metis length_map)
  qed
  with d show ?thesis by blast
qed

theorem dedup_by_url_witness:
  "(\<forall>n. urls_shown (with_duplicates n) =
      [''/a/status/1'', ''/b/status/2'', ''/a/status/1'', ''/c/status/3'', ''/a/status/1'']) \<and>
   length (scrollAndCollect with_duplicates 50) = 3 \<and>
   map tweetUrl (scrollAndCollect with_duplicates 50) = [''/a/status/1'', ''/b/status/2'', ''/c/status/3'']"
proof -
  let ?us = "[''/a/status/1'', ''/b/status/2'', ''/a/status/1'', ''/c/status/3'', ''/a/status/1'']"
  have h: "\<forall>n. urls_shown (with_duplicates n) = ?us"
    by (simp add: urls_shown_def with_duplicates_def bare_cell_def candidate_url_def)
  have "count_list ?us ''/a/status/1'' = 3 \<and> (0::nat) < 3 \<and>
    distinct (removeAll ''/a/status/1'' ?us) \<and> length (removeAll ''/a/status/1'' ?us) = 2"
    by simp
  with h dedup_by_url[of with_duplicates 50 ?us "''/a/status/1''" 3 2] show ?thesis by simp
qed

text \<open>
  Claim C7, as amended. On a document that never changes and shows three distinct candidate
  URLs, with target 50, the collector resolves with three tweets, by the test of the height
  alone; it does so on the second tick, and on the first only when the height is 0, the
  initial value of \<open>previousHeight\<close>.
\<close>
theorem static_three_stops_on_second_tick:
  assumes "\<forall>n. doc n = d" and "distinct (urls_shown d)" and "length (urls_shown d) = 3"
  shows "length (scrollAndCollect doc 50) = 3 \<and>
     scrollAttempts (scrollInterval doc 50 initial) = (if scrollHeight d = 0 then 1 else 2) \<and>
     scrollHeight d = previousHeight (scrollInterval doc 50 initial) \<and>
     \<not> 50 \<le> int (length (tweets (scrollInterval doc 50 initial))) \<and>
     \<not> maxScrollAttempts \<le> scrollAttempts (scrollInterval doc 50 initial)"
proof -
  let ?s1 = "scan initial d"
  have d: "doc n = d" for n using assms(1) by simp
  note s1 = scan_urls[OF initial_consistent, of d] 
  have u1: "map tweetUrl (tweets ?s1) = urls_shown d"
    using s1(2) assms(2) by (simp add: initial_def first_seen_distinct)
  then have l1: "length (tweets ?s1) = 3" using assms(3) by (metis length_map)
  have a1: "scrollAttempts ?s1 = 1" "previousHeight ?s1 = 0" by (simp_all add: initial_def)
  show ?thesis
  proof (cases "scrollHeight d = 0")
    case True
    then have "scrollInterval doc 50 initial = ?s1"
      by (subst scrollInterval.simps) (simp add: Let_def d stop_def a1 initial_def)
    with True l1 a1 show ?thesis
      by (simp add: scrollAndCollect_def maxScrollAttempts_def)
  next
    case False
    let ?s1' = "?s1\<lparr>previousHeight := scrollHeight d\<rparr>"
    let ?s2 = "scan ?s1' d"
    have ns: "\<not> stop 50 ?s1 (scrollHeight d)"
      using False l1 a1 by (simp add: stop_def maxScrollAttempts_def)
    have c1: "consistent ?s1'" using s1(1) by simp
    have "processedTweetUrls ?s1' = set (urls_shown d)"
      using s1(1) u1 by (simp add: consistent_def)
    then have "map tweetUrl (tweets ?s2) = urls_shown d"
      using scan_urls(2)[OF c1, of d] u1 by simp
    then have l2: "length (tweets ?s2) = 3" using assms(3) by (metis length_map)
    have a2: "scrollAttempts ?s2 = 2" "previousHeight ?s2 = scrollHeight d"
      using a1 by simp_all
    have "scrollInterval doc 50 initial = scrollInterval doc 50 ?s1'"
      using ns by (subst scrollInterval.simps) (simp add: Let_def d initial_def)
    also have "\<dots> = ?s2"
      by (subst scrollInterval.simps) (simp add: Let_def d a1 stop_def)
    finally show ?thesis using False l2 a2
      by (simp add: scrollAndCollect_def maxScrollAttempts_def)
  qed
qed

theorem static_three_stops_on_second_tick_witness:
  "(\<forall>n. static_three n = static_three 0) \<and> distinct (urls_shown (static_three 0)) \<and>
   length (urls_shown (static_three 0)) = 3 \<and>
   length (scrollAndCollect static_three 50) = 3 \<and>
   scrollAttempts (scrollInterval static_three 50 initial) = 2 \<and>
   previousHeight (scrollInterval static_three 50 initial) = 1000"
proof -
  have h: "\<forall>n. static_three n = static_three 0" by (simp add: static_three_def)
  have u: "distinct (urls_shown (static_three 0))" "length (urls_shown (static_three 0)) = 3"
    by (simp_all add: urls_shown_def static_three_def bare_cell_def candidate_url_def)
  have "scrollHeight (static_three 0) = 1000" by (simp add: static_three_def)
  with static_three_stops_on_second_tick[OF h u] h u show ?thesis by simp
qed

text \<open>
  Claim C7 as stated fails: on the document \<open>static_three\<close> the test does not hold after
  the first tick, and the promise is resolved on the second.
\<close>

theorem static_three_first_tick_counterexample:
  "\<not> stop 50 (scan initial (static_three 0)) (scrollHeight (static_three 0)) \<and>
   scrollAttempts (scrollInterval static_three 50 initial) = 2"
  by code_simp

section \<open>The Orchestrator: lemmas\<close>

lemma comments_loop_length [simp]: "length (fst (comments_loop env i ts tr)) = length ts"
proof (induction env i ts tr rule: comments_loop.induct)
  case (1 env i ts tr)
  show ?case
  proof (cases "i < length ts")
    case False
    then show ?thesis by (subst comments_loop.simps) simp
  next
    case True
    show ?thesis
    proof (cases "tweetUrl (ts ! i) = ''''")
      case True
      with \<open>i < length ts\<close> 1(2) show ?thesis by (subst comments_loop.simps) simp
    next
      case False
      obtain cs tr' where sc: "scrapeComments env tr (tweetUrl (ts ! i)) = (cs, tr')"
        by (cases "scrapeComments env tr (tweetUrl (ts ! i))")
      from 1(1)[OF True False sc[symmetric]] True False sc show ?thesis
        by (subst comments_loop.simps) simp
    qed
  qed
qed

lemma comments_loop_below:
  "k < i \<Longrightarrow> fst (comments_loop env i ts tr) ! k = ts ! k"
proof (induction env i ts tr rule: comments_loop.induct)
  case (1 env i ts tr)
  show ?case
  proof (cases "i < length ts")
    case False
    then show ?thesis by (subst comments_loop.simps) simp
  next
    case True
    show ?thesis
    proof (cases "tweetUrl (ts ! i) = ''''")
      case True
      with \<open>i < length ts\<close> 1(2) 1(3) show ?thesis by (subst comments_loop.simps) simp
    next
      case False
      obtain cs tr' where sc: "scrapeComments env tr (tweetUrl (ts ! i)) = (cs, tr')"
        by (cases "scrapeComments env tr (tweetUrl (ts ! i))")
      from 1(1)[OF True False sc[symmetric]] 1(3) True False sc show ?thesis
        by (subst comments_loop.simps) simp
    qed
  qed
qed

lemma comments_loop_done: "length ts \<le> i \<Longrightarrow> comments_loop env i ts tr = (ts, tr)"
  by (subst comments_loop.simps) simp

lemma comments_loop_nth:
  "i \<le> k \<Longrightarrow> k < length ts \<Longrightarrow>
   fst (comments_loop env i ts tr) ! k =
     turn env (snd (comments_loop env i (take k ts) tr)) (ts ! k)"
proof (induction env i ts tr rule: comments_loop.induct)
  case (1 env i ts tr)
  from 1(3,4) have il: "i < length ts" by simp
  obtain cs tr' where sc: "scrapeComments env tr (tweetUrl (ts ! i)) = (cs, tr')"
    by (cases "scrapeComments env tr (tweetUrl (ts ! i))")
  show ?case
  proof (cases "i = k")
    case True
    have pre: "comments_loop env k (take k ts) tr = (take k ts, tr)"
      by (rule comments_loop_done) simp
    show ?thesis
    proof (cases "tweetUrl (ts ! k) = ''''")
      case e: True
      have "comments_loop env k ts tr = comments_loop env (Suc k) ts tr"
        using il True e by (subst comments_loop.simps) simp
      then show ?thesis
        using e True pre comments_loop_below[of k "Suc k" env ts tr]
        by (simp add: turn_def)
    next
      case ne: False
      have "comments_loop env k ts tr =
            comments_loop env (Suc k) (ts[k := (ts ! k)\<lparr>comments := cs\<rparr>]) tr'"
        using il True ne sc by (subst comments_loop.simps) simp
      then show ?thesis
        using ne True pre sc il
          comments_loop_below[of k "Suc k" env "ts[k := (ts ! k)\<lparr>comments := cs\<rparr>]" tr']
        by (simp add: turn_def)
    qed
  next
    case False
    with 1(3) have ik: "Suc i \<le> k" "i < k" by simp_all
    have ilt: "i < length (take k ts)" using ik 1(4) by simp
    show ?thesis
    proof (cases "tweetUrl (ts ! i) = ''''")
      case e: True
      have a: "comments_loop env i ts tr = comments_loop env (Suc i) ts tr"
        using il e by (subst comments_loop.simps) simp
      have b: "comments_loop env i (take k ts) tr = comments_loop env (Suc i) (take k ts) tr"
        using ilt e ik by (subst comments_loop.simps) simp
      from 1(2)[OF il _ ik(1) 1(4)] e show ?thesis unfolding a b by simp
    next
      case ne: False
      let ?ts = "ts[i := (ts ! i)\<lparr>comments := cs\<rparr>]"
      have a: "comments_loop env i ts tr = comments_loop env (Suc i) ?ts tr'"
        using il ne sc by (subst comments_loop.simps) simp
      have b: "comments_loop env i (take k ts) tr = comments_loop env (Suc i) (take k ?ts) tr'"
        using ilt ne ik sc by (subst comments_loop.simps) (simp add: take_update_swap)
      have k: "k < length ?ts" using 1(4) by simp
      from 1(1)[OF il ne sc[symmetric] ik(1) k] ik show ?thesis unfolding a b by simp
    qed
  qed
qed

lemma comments_loop_nth0:
  "k < length ts \<Longrightarrow> fst (comments_loop env 0 ts tr) ! k = turn env (calls_before env ts tr k) (ts ! k)"
  using comments_loop_nth[of 0 k ts env tr] by (simp add: calls_before_def)

lemma scrapeTweets_try_cases [case_names query_rejects no_tab no_id count_rejects
    collect_rejects no_tweets loop]:
  obtains
    m where "tabs_query env [Query] = Rejects m"
      "scrapeTweets_try env n = (Inl (Rejection m), [Query])"
  | "tabs_query env [Query] = Resolves []"
      "scrapeTweets_try env n = (Inl (TypeError ''id''), [Query])"
  | tab others where "tabs_query env [Query] = Resolves (tab # others)"
      "tab_id tab = None \<or> tab_id tab = Some 0"
      "scrapeTweets_try env n = (Inl (Error ''No active tab found''), [Query])"
  | tab others i m where "tabs_query env [Query] = Resolves (tab # others)"
      "tab_id tab = Some i" "i \<noteq> 0"
      "inject_count env [Query, InjectCount i n] = Rejects m"
      "scrapeTweets_try env n = (Inl (Rejection m), [Query, InjectCount i n])"
  | tab others i m where "tabs_query env [Query] = Resolves (tab # others)"
      "tab_id tab = Some i" "i \<noteq> 0"
      "inject_count env [Query, InjectCount i n] = Resolves ()"
      "inject_collect env [Query, InjectCount i n, InjectCollect i] = Rejects m"
      "scrapeTweets_try env n = (Inl (Rejection m), [Query, InjectCount i n, InjectCollect i])"
  | tab others i rs where "tabs_query env [Query] = Resolves (tab # others)"
      "tab_id tab = Some i" "i \<noteq> 0"
      "inject_count env [Query, InjectCount i n] = Resolves ()"
      "inject_collect env [Query, InjectCount i n, InjectCollect i] = Resolves rs"
      "no_tweets rs"
      "scrapeTweets_try env n =
         (Inl (Error ''No tweets found on this page''), [Query, InjectCount i n, InjectCollect i])"
  | tab others i ts rest where "tabs_query env [Query] = Resolves (tab # others)"
      "tab_id tab = Some i" "i \<noteq> 0"
      "inject_count env [Query, InjectCount i n] = Resolves ()"
      "inject_collect env [Query, InjectCount i n, InjectCollect i] = Resolves (Some ts # rest)"
      "ts \<noteq> []"
      "scrapeTweets_try env n =
         (case restoring env tab i (snd (comments_loop env 0 ts [Query, InjectCount i n, InjectCollect i])) of
            Rejects m \<Rightarrow> Inl (Rejection m)
          | Resolves _ \<Rightarrow> Inr (fst (comments_loop env 0 ts [Query, InjectCount i n, InjectCollect i])),
          snd (comments_loop env 0 ts [Query, InjectCount i n, InjectCollect i]) @ restoring_call tab i)"
proof (cases "tabs_query env [Query]")
  case (Rejects m)
  then show ?thesis using that(1) by (simp add: scrapeTweets_try_def)
next
  case (Resolves tabs)
  show ?thesis
  proof (cases tabs)
    case Nil
    with Resolves show ?thesis using that(2) by (simp add: scrapeTweets_try_def)
  next
    case (Cons tab others)
    note q = Resolves[unfolded Cons]
    show ?thesis
    proof (cases "tab_id tab = None \<or> tab_id tab = Some 0")
      case True
      with q show ?thesis using that(3) by (auto simp: scrapeTweets_try_def)
    next
      case False
      then obtain i where i: "tab_id tab = Some i" "i \<noteq> 0" by auto
      show ?thesis
      proof (cases "inject_count env [Query, InjectCount i n]")
        case (Rejects m)
        with q i show ?thesis using that(4) by (simp add: scrapeTweets_try_def)
      next
        case c: (Resolves u)
        show ?thesis
        proof (cases "inject_collect env [Query, InjectCount i n, InjectCollect i]")
          case (Rejects m)
          with q i c show ?thesis using that(5) by (simp add: scrapeTweets_try_def)
        next
          case r: (Resolves rs)
          show ?thesis
          proof (cases "no_tweets rs")
            case True
            with q i c r have "scrapeTweets_try env n =
              (Inl (Error ''No tweets found on this page''), [Query, InjectCount i n, InjectCollect i])"
              by (cases rs rule: no_tweets.cases) (simp_all add: scrapeTweets_try_def)
            with q i c r True show ?thesis using that(6) by simp
          next
            case False
            then obtain ts rest where rs: "rs = Some ts # rest" "ts \<noteq> []"
              by (cases rs rule: no_tweets.cases) simp_all
            with q i c r have "scrapeTweets_try env n =
              (case restoring env tab i (snd (comments_loop env 0 ts [Query, InjectCount i n, InjectCollect i])) of
                 Rejects m \<Rightarrow> Inl (Rejection m)
               | Resolves _ \<Rightarrow> Inr (fst (comments_loop env 0 ts [Query, InjectCount i n, InjectCollect i])),
               snd (comments_loop env 0 ts [Query, InjectCount i n, InjectCollect i]) @ restoring_call tab i)"
              by (auto simp: scrapeTweets_try_def restoring_def restoring_call_def Let_def
                  split: prod.splits option.splits promise.splits)
            with q i c r rs show ?thesis using that(7) by simp
          qed
        qed
      qed
    qed
  qed
qed

lemma scrapeComments_caught:
  "fst (scrapeComments_try env tr url) = Inl e \<Longrightarrow> fst (scrapeComments env tr url) = []"
  by (cases "scrapeComments_try env tr url") (simp add: scrapeComments_def)

lemma scrapeTweets_try_loop:
  assumes "tabs_query env [Query] = Resolves (tab # others)" "tab_id tab = Some i" "i \<noteq> 0"
    and "inject_count env [Query, InjectCount i n] = Resolves ()"
    and "inject_collect env [Query, InjectCount i n, InjectCollect i] = Resolves (Some ts # rest)"
    and "ts \<noteq> []"
  shows "scrapeTweets_try env n =
     (case restoring env tab i
             (snd (comments_loop env 0 ts [Query, InjectCount i n, InjectCollect i])) of
        Rejects m \<Rightarrow> Inl (Rejection m)
      | Resolves _ \<Rightarrow>
          Inr (fst (comments_loop env 0 ts [Query, InjectCount i n, InjectCollect i])),
      snd (comments_loop env 0 ts [Query, InjectCount i n, InjectCollect i]) @
      restoring_call tab i)"
  using assms scrapeTweets_try_cases[of env n]
  by (auto simp: scrapeTweets_try_def restoring_def restoring_call_def Let_def
      split: prod.splits option.splits promise.splits)

lemma comments_loop_urls: "map tweetUrl (fst (comments_loop env 0 ts tr)) = map tweetUrl ts"
proof (rule nth_equalityI)
  show "length (map tweetUrl (fst (comments_loop env 0 ts tr))) = length (map tweetUrl ts)"
    by simp
next
  fix k assume "k < length (map tweetUrl (fst (comments_loop env 0 ts tr)))"
  then have k: "k < length ts" by simp
  then show "map tweetUrl (fst (comments_loop env 0 ts tr)) ! k = map tweetUrl ts ! k"
    by (simp add: comments_loop_nth0[OF k] turn_def)
qed

lemma no_tab_at_caught:
  "no_tab_at env tr \<Longrightarrow> scrapeComments env tr url = ([], tr @ [Query])"
  by (auto simp: no_tab_at_def scrapeComments_def scrapeComments_try_def
      split: promise.splits list.splits option.splits)

section \<open>The Orchestrator: claims\<close>

text \<open>
  Claim C3, as amended. Provided the first query does not resolve with an empty array:
  the run fails with "No active tab found" exactly when the first tab queried has no id, and
  then has made no call but the query; it fails with "No tweets found on this page" exactly
  when the tab has an id, both injections resolve and that of the collector brings no
  tweets, and then has made no navigation; any other failure is the rejection of an API
  promise, namely of the first query, of an injection, or of the navigation back; and
  once the collector has brought tweets, the run resolves with the array the loop leaves
  unless the navigation back rejects: no failure of a fetch of comments fails the run.
  A failed run shows the message of its error after "Error scraping tweets: " and keeps the
  scraped data it had; a run that resolves stores the array.
\<close>
theorem run_outcomes:
  assumes "tabs_query env [Query] \<noteq> Resolves []"
  shows
    "(fst (scrapeTweets_try env n) = Inl (Error ''No active tab found'') \<longleftrightarrow>
        (\<exists>tab others. tabs_query env [Query] = Resolves (tab # others) \<and>
           (tab_id tab = None \<or> tab_id tab = Some 0))) \<and>
     (fst (scrapeTweets_try env n) = Inl (Error ''No active tab found'') \<longrightarrow>
        snd (scrapeTweets_try env n) = [Query]) \<and>
     (fst (scrapeTweets_try env n) = Inl (Error ''No tweets found on this page'') \<longleftrightarrow>
        (\<exists>tab others i rs. tabs_query env [Query] = Resolves (tab # others) \<and>
           tab_id tab = Some i \<and> i \<noteq> 0 \<and>
           inject_count env [Query, InjectCount i n] = Resolves () \<and>
           inject_collect env [Query, InjectCount i n, InjectCollect i] = Resolves rs \<and>
           no_tweets rs)) \<and>
     (fst (scrapeTweets_try env n) = Inl (Error ''No tweets found on this page'') \<longrightarrow>
        (\<exists>i. snd (scrapeTweets_try env n) = [Query, InjectCount i n, InjectCollect i])) \<and>
     (\<forall>e. fst (scrapeTweets_try env n) = Inl e \<longrightarrow>
        e = Error ''No active tab found'' \<or> e = Error ''No tweets found on this page'' \<or>
        (\<exists>m. e = Rejection m)) \<and>
     (\<forall>tab others i ts rest.
        tabs_query env [Query] = Resolves (tab # others) \<and> tab_id tab = Some i \<and> i \<noteq> 0 \<and>
        inject_count env [Query, InjectCount i n] = Resolves () \<and>
        inject_collect env [Query, InjectCount i n, InjectCollect i] =
          Resolves (Some ts # rest) \<and> ts \<noteq> [] \<longrightarrow>
        fst (scrapeTweets_try env n) =
          (case restoring env tab i
                  (snd (comments_loop env 0 ts [Query, InjectCount i n, InjectCollect i])) of
             Rejects m \<Rightarrow> Inl (Rejection m)
           | Resolves _ \<Rightarrow>
               Inr (fst (comments_loop env 0 ts [Query, InjectCount i n, InjectCollect i])))) \<and>
     (\<forall>m. fst (scrapeTweets_try env n) = Inl (Rejection m) \<longleftrightarrow>
             tabs_query env [Query] = Rejects m \<or>
             (\<exists>tab others i. tabs_query env [Query] = Resolves (tab # others) \<and>
                tab_id tab = Some i \<and> i \<noteq> 0 \<and>
                (inject_count env [Query, InjectCount i n] = Rejects m \<or>
                 inject_count env [Query, InjectCount i n] = Resolves () \<and>
                 (inject_collect env [Query, InjectCount i n, InjectCollect i] = Rejects m \<or>
                  (\<exists>ts rest.
                     inject_collect env [Query, InjectCount i n, InjectCollect i] =
                       Resolves (Some ts # rest) \<and> ts \<noteq> [] \<and>
                     restoring env tab i
                       (snd (comments_loop env 0 ts [Query, InjectCount i n, InjectCollect i])) =
                       Rejects m))))) \<and>
     (error (fst (scrapeTweets env s)) =
             (case fst (scrapeTweets_try env (tweetCount s)) of
                Inl e \<Rightarrow> Some (''Error scraping tweets: '' @ message e)
              | Inr ts \<Rightarrow> None) \<and>
           scrapedData (fst (scrapeTweets env s)) =
             (case fst (scrapeTweets_try env (tweetCount s)) of
                Inl e \<Rightarrow> scrapedData s
              | Inr ts \<Rightarrow> Some ts))"
proof -
  let ?r = "scrapeTweets_try env n"
  have a: "fst ?r = Inl (Error ''No active tab found'') \<longleftrightarrow>
        (\<exists>tab others. tabs_query env [Query] = Resolves (tab # others) \<and>
           (tab_id tab = None \<or> tab_id tab = Some 0))"
    by (cases rule: scrapeTweets_try_cases[of env n]) (auto split: promise.splits)
  have b: "fst ?r = Inl (Error ''No active tab found'') \<longrightarrow> snd ?r = [Query]"
    by (cases rule: scrapeTweets_try_cases[of env n]) (auto split: promise.splits)
  have c: "fst ?r = Inl (Error ''No tweets found on this page'') \<longleftrightarrow>
        (\<exists>tab others i rs. tabs_query env [Query] = Resolves (tab # others) \<and>
           tab_id tab = Some i \<and> i \<noteq> 0 \<and>
           inject_count env [Query, InjectCount i n] = Resolves () \<and>
           inject_collect env [Query, InjectCount i n, InjectCollect i] = Resolves rs \<and>
           no_tweets rs)"
    by (cases rule: scrapeTweets_try_cases[of env n]) (auto split: promise.splits)
  have d: "fst ?r = Inl (Error ''No tweets found on this page'') \<longrightarrow>
        (\<exists>i. snd ?r = [Query, InjectCount i n, InjectCollect i])"
    by (cases rule: scrapeTweets_try_cases[of env n]) (auto split: promise.splits)
  have e: "\<forall>e. fst ?r = Inl e \<longrightarrow>
        e = Error ''No active tab found'' \<or> e = Error ''No tweets found on this page'' \<or>
        (\<exists>m. e = Rejection m)"
    using assms
    by (cases rule: scrapeTweets_try_cases[of env n]) (auto split: promise.splits)
  have f: "\<forall>tab others i ts rest.
        tabs_query env [Query] = Resolves (tab # others) \<and> tab_id tab = Some i \<and> i \<noteq> 0 \<and>
        inject_count env [Query, InjectCount i n] = Resolves () \<and>
        inject_collect env [Query, InjectCount i n, InjectCollect i] =
          Resolves (Some ts # rest) \<and> ts \<noteq> [] \<longrightarrow>
        fst ?r =
          (case restoring env tab i
                  (snd (comments_loop env 0 ts [Query, InjectCount i n, InjectCollect i])) of
             Rejects m \<Rightarrow> Inl (Rejection m)
           | Resolves _ \<Rightarrow>
               Inr (fst (comments_loop env 0 ts [Query, InjectCount i n, InjectCollect i])))"
    by (auto simp: scrapeTweets_try_loop)
  have g: "\<forall>m. fst (scrapeTweets_try env n) = Inl (Rejection m) \<longleftrightarrow>
        tabs_query env [Query] = Rejects m \<or>
        (\<exists>tab others i. tabs_query env [Query] = Resolves (tab # others) \<and>
           tab_id tab = Some i \<and> i \<noteq> 0 \<and>
           (inject_count env [Query, InjectCount i n] = Rejects m \<or>
            inject_count env [Query, InjectCount i n] = Resolves () \<and>
            (inject_collect env [Query, InjectCount i n, InjectCollect i] = Rejects m \<or>
             (\<exists>ts rest.
                inject_collect env [Query, InjectCount i n, InjectCollect i] =
                  Resolves (Some ts # rest) \<and> ts \<noteq> [] \<and>
                restoring env tab i
                  (snd (comments_loop env 0 ts [Query, InjectCount i n, InjectCollect i])) =
                  Rejects m))))"
    by (cases rule: scrapeTweets_try_cases[of env n]) (auto split: promise.splits)
  have j: "error (fst (scrapeTweets env s)) =
        (case fst (scrapeTweets_try env (tweetCount s)) of
           Inl e \<Rightarrow> Some (''Error scraping tweets: '' @ message e)
         | Inr ts \<Rightarrow> None) \<and>
      scrapedData (fst (scrapeTweets env s)) =
        (case fst (scrapeTweets_try env (tweetCount s)) of
           Inl e \<Rightarrow> scrapedData s
         | Inr ts \<Rightarrow> Some ts)"
    by (cases "scrapeTweets_try env (tweetCount s)")
       (auto simp: scrapeTweets_def Let_def split: sum.splits)
  from a b c d e f g j show ?thesis by blast
qed

theorem run_outcomes_witness:
  "tabs_query steady [Query] \<noteq> Resolves [] \<and>
   fst (scrapeTweets_try steady 50) \<noteq> Inl (Error ''No active tab found'') \<and>
   fst (scrapeTweets_try steady 50) \<noteq> Inl (Error ''No tweets found on this page'') \<and>
   fst (scrapeTweets_try steady 50) =
     Inr (fst (comments_loop steady 0 [tweet_a, tweet_b] [Query, InjectCount 7 50, InjectCollect 7])) \<and>
   tabs_query detached [Query] \<noteq> Resolves [] \<and>
   fst (scrapeTweets_try detached 50) = Inl (Error ''No active tab found'') \<and>
   snd (scrapeTweets_try detached 50) = [Query] \<and>
   tabs_query empty_feed [Query] \<noteq> Resolves [] \<and>
   fst (scrapeTweets_try empty_feed 50) = Inl (Error ''No tweets found on this page'')"
proof -
  have h: "tabs_query steady [Query] \<noteq> Resolves []" by (simp add: steady_def)
  note t = run_outcomes[OF h, of 50 idle]
  note no_tab_iff = t[THEN conjunct1]
  note no_tweets_iff = t[THEN conjunct2, THEN conjunct2, THEN conjunct1]
  note in_loop = t[THEN conjunct2, THEN conjunct2, THEN conjunct2, THEN conjunct2,
      THEN conjunct2, THEN conjunct1]
  have q: "tabs_query steady [Query] = Resolves (open_tab # [])" "tab_id open_tab = Some 7"
    "(7::int) \<noteq> 0"
    "inject_count steady [Query, InjectCount 7 50] = Resolves ()"
    "inject_collect steady [Query, InjectCount 7 50, InjectCollect 7] =
       Resolves (Some [tweet_a, tweet_b] # [])"
    "[tweet_a, tweet_b] \<noteq> []"
    by (simp_all add: steady_def open_tab_def)
  have r: "restoring steady open_tab 7 tr = Resolves ()" for tr
    by (simp add: restoring_def steady_def open_tab_def)
  from no_tab_iff q
  have n1: "fst (scrapeTweets_try steady 50) \<noteq> Inl (Error ''No active tab found'')"
    by auto
  from no_tweets_iff q
  have n2: "fst (scrapeTweets_try steady 50) \<noteq> Inl (Error ''No tweets found on this page'')"
    by auto
  from in_loop q have "fst (scrapeTweets_try steady 50) =
     (case restoring steady open_tab 7
             (snd (comments_loop steady 0 [tweet_a, tweet_b]
                [Query, InjectCount 7 50, InjectCollect 7])) of
        Rejects m \<Rightarrow> Inl (Rejection m)
      | Resolves _ \<Rightarrow>
          Inr (fst (comments_loop steady 0 [tweet_a, tweet_b]
                 [Query, InjectCount 7 50, InjectCollect 7])))"
    by blast
  with r have n3: "fst (scrapeTweets_try steady 50) =
     Inr (fst (comments_loop steady 0 [tweet_a, tweet_b] [Query, InjectCount 7 50, InjectCollect 7]))"
    by simp
  have hd: "tabs_query detached [Query] \<noteq> Resolves []" by (simp add: detached_def steady_def)
  note td = run_outcomes[OF hd, of 50 idle]
  have qd: "tabs_query detached [Query] = Resolves (\<lparr>tab_id = None, tab_url = None\<rparr> # [])"
    by (simp add: detached_def steady_def)
  from td[THEN conjunct1] qd
  have d1: "fst (scrapeTweets_try detached 50) = Inl (Error ''No active tab found'')" by auto
  with td[THEN conjunct2, THEN conjunct1]
  have d2: "snd (scrapeTweets_try detached 50) = [Query]" by blast
  have he: "tabs_query empty_feed [Query] \<noteq> Resolves []" by (simp add: empty_feed_def steady_def)
  note te = run_outcomes[OF he, of 50 idle]
  have qe: "tabs_query empty_feed [Query] = Resolves (open_tab # [])" "tab_id open_tab = Some 7"
    "(7::int) \<noteq> 0"
    "inject_count empty_feed [Query, InjectCount 7 50] = Resolves ()"
    "inject_collect empty_feed [Query, InjectCount 7 50, InjectCollect 7] = Resolves [Some []]"
    "no_tweets [Some []]"
    by (simp_all add: empty_feed_def steady_def open_tab_def)
  have "\<exists>tab others i rs. tabs_query empty_feed [Query] = Resolves (tab # others) \<and>
           tab_id tab = Some i \<and> i \<noteq> 0 \<and>
           inject_count empty_feed [Query, InjectCount i 50] = Resolves () \<and>
           inject_collect empty_feed [Query, InjectCount i 50, InjectCollect i] = Resolves rs \<and>
           no_tweets rs"
    using qe by blast
  with te[THEN conjunct2, THEN conjunct2, THEN conjunct1]
  have e1: "fst (scrapeTweets_try empty_feed 50) = Inl (Error ''No tweets found on this page'')"
    by blast
  from h n1 n2 n3 hd d1 d2 he e1 show ?thesis by blast
qed

text \<open>
  Claim C3 as stated fails: on a page that refuses the injection, a tab is there, the
  collector never runs, and the run ends in an error that is neither of the two.
\<close>

theorem third_fatal_outcome_counterexample:
  "tabs_query restricted_page [Query] = Resolves [open_tab] \<and>
   tab_id open_tab = Some 7 \<and>
   scrapeTweets_try restricted_page 50 =
     (Inl (Rejection ''Cannot access a chrome:// URL''), [Query, InjectCount 7 50]) \<and>
   scrapeTweets restricted_page idle =
     (idle\<lparr>error := Some ''Error scraping tweets: Cannot access a chrome:// URL''\<rparr>,
      [Query, InjectCount 7 50])"
  by code_simp

text \<open>
  Claim C8. In a run that reaches the loop, the calls made are those of the loop followed
  by the navigation of the tab first queried to the address it had then, and by nothing when
  that address is missing or empty. A run that fails with "No active tab found" or with
  "No tweets found on this page" has made no navigation. (The loop itself cannot throw: it
  is a total function, every error of a fetch being caught in \<open>scrapeComments\<close>.)
\<close>
theorem restoration_after_loop:
  "(tabs_query env [Query] = Resolves (tab # others) \<and> tab_id tab = Some i \<and> i \<noteq> 0 \<and>
    inject_count env [Query, InjectCount i n] = Resolves () \<and>
    inject_collect env [Query, InjectCount i n, InjectCollect i] = Resolves (Some ts # rest) \<and>
    ts \<noteq> [] \<longrightarrow>
      snd (scrapeTweets_try env n) =
        snd (comments_loop env 0 ts [Query, InjectCount i n, InjectCollect i]) @
        (case tab_url tab of
           None \<Rightarrow> []
         | Some u \<Rightarrow> if u = '''' then [] else [Update i u])) \<and>
   (fst (scrapeTweets_try env n) = Inl (Error ''No active tab found'') \<longrightarrow>
      snd (scrapeTweets_try env n) = [Query]) \<and>
   (fst (scrapeTweets_try env n) = Inl (Error ''No tweets found on this page'') \<longrightarrow>
      (\<exists>j. snd (scrapeTweets_try env n) = [Query, InjectCount j n, InjectCollect j]))"
proof -
  let ?r = "scrapeTweets_try env n"
  have a: "snd ?r =
        snd (comments_loop env 0 ts [Query, InjectCount i n, InjectCollect i]) @
        (case tab_url tab of
           None \<Rightarrow> []
         | Some u \<Rightarrow> if u = '''' then [] else [Update i u])"
    if "tabs_query env [Query] = Resolves (tab # others)" "tab_id tab = Some i" "i \<noteq> 0"
      "inject_count env [Query, InjectCount i n] = Resolves ()"
      "inject_collect env [Query, InjectCount i n, InjectCollect i] = Resolves (Some ts # rest)"
      "ts \<noteq> []"
    using scrapeTweets_try_loop[OF that] by (simp add: restoring_call_def)
  have b: "fst ?r = Inl (Error ''No active tab found'') \<longrightarrow> snd ?r = [Query]"
    by (cases rule: scrapeTweets_try_cases[of env n]) (auto split: promise.splits)
  have d: "fst ?r = Inl (Error ''No tweets found on this page'') \<longrightarrow>
        (\<exists>j. snd ?r = [Query, InjectCount j n, InjectCollect j])"
    by (cases rule: scrapeTweets_try_cases[of env n]) (auto split: promise.splits)
  from a b d show ?thesis by blast
qed

theorem restoration_after_loop_witness:
  "tabs_query steady [Query] = Resolves (open_tab # []) \<and> tab_id open_tab = Some 7 \<and>
   (7::int) \<noteq> 0 \<and>
   inject_count steady [Query, InjectCount 7 50] = Resolves () \<and>
   inject_collect steady [Query, InjectCount 7 50, InjectCollect 7] =
     Resolves (Some [tweet_a, tweet_b] # []) \<and>
   [tweet_a, tweet_b] \<noteq> [] \<and>
   snd (scrapeTweets_try steady 50) =
     snd (comments_loop steady 0 [tweet_a, tweet_b] [Query, InjectCount 7 50, InjectCollect 7]) @
     [Update 7 ''https://twitter.com/home''] \<and>
   fst (scrapeTweets_try detached 50) = Inl (Error ''No active tab found'') \<and>
   snd (scrapeTweets_try detached 50) = [Query] \<and>
   fst (scrapeTweets_try empty_feed 50) = Inl (Error ''No tweets found on this page'') \<and>
   snd (scrapeTweets_try empty_feed 50) = [Query, InjectCount 7 50, InjectCollect 7]"
proof -
  have q: "tabs_query steady [Query] = Resolves (open_tab # [])" "tab_id open_tab = Some 7"
    "(7::int) \<noteq> 0"
    "inject_count steady [Query, InjectCount 7 50] = Resolves ()"
    "inject_collect steady [Query, InjectCount 7 50, InjectCollect 7] =
       Resolves (Some [tweet_a, tweet_b] # [])"
    "[tweet_a, tweet_b] \<noteq> []"
    by (simp_all add: steady_def open_tab_def)
  have u: "tab_url open_tab = Some ''https://twitter.com/home''" by (simp add: open_tab_def)
  from restoration_after_loop[of steady open_tab "[]" 7 50 "[tweet_a, tweet_b]" "[]"] q u
  have a: "snd (scrapeTweets_try steady 50) =
     snd (comments_loop steady 0 [tweet_a, tweet_b] [Query, InjectCount 7 50, InjectCollect 7]) @
     [Update 7 ''https://twitter.com/home'']"
    by simp
  have d: "fst (scrapeTweets_try detached 50) = Inl (Error ''No active tab found'')"
    by code_simp
  with restoration_after_loop[of detached _ _ _ 50]
  have d2: "snd (scrapeTweets_try detached 50) = [Query]" by blast
  have e: "fst (scrapeTweets_try empty_feed 50) = Inl (Error ''No tweets found on this page'')"
    by code_simp
  with restoration_after_loop[of empty_feed _ _ _ 50]
  obtain j where j: "snd (scrapeTweets_try empty_feed 50) = [Query, InjectCount j 50, InjectCollect j]"
    by blast
  have "hd (tl (snd (scrapeTweets_try empty_feed 50))) = InjectCount 7 50" by code_simp
  with j have "j = 7" by simp
  with j have e2: "snd (scrapeTweets_try empty_feed 50) = [Query, InjectCount 7 50, InjectCollect 7]"
    by simp
  from q a d d2 e e2 show ?thesis by simp
qed

text \<open>
  Claim C6. The loop leaves an array of the same length with the same URLs in the same
  places; each tweet differs from what it was in its comments at most; the comments of a
  tweet with a URL are those fetched in its own turn under its own URL, and a tweet without
  a URL is untouched. The array a run resolves with is the one the loop leaves of the
  collector's.
\<close>
theorem replies_attach_in_place:
  "length (fst (comments_loop env 0 ts tr)) = length ts \<and>
   map tweetUrl (fst (comments_loop env 0 ts tr)) = map tweetUrl ts \<and>
   (\<forall>k<length ts.
      fst (comments_loop env 0 ts tr) ! k =
        (ts ! k)\<lparr>comments := comments (fst (comments_loop env 0 ts tr) ! k)\<rparr> \<and>
      (tweetUrl (ts ! k) \<noteq> '''' \<longrightarrow>
         comments (fst (comments_loop env 0 ts tr) ! k) =
           fst (scrapeComments env (calls_before env ts tr k)
                  (tweetUrl (fst (comments_loop env 0 ts tr) ! k)))) \<and>
      (tweetUrl (ts ! k) = '''' \<longrightarrow> fst (comments_loop env 0 ts tr) ! k = ts ! k)) \<and>
   (\<forall>res. fst (scrapeTweets_try env n) = Inr res \<longrightarrow>
      (\<exists>i ts rest.
         inject_collect env [Query, InjectCount i n, InjectCollect i] = Resolves (Some ts # rest) \<and>
         res = fst (comments_loop env 0 ts [Query, InjectCount i n, InjectCollect i])))"
proof -
  have a: "\<forall>k<length ts.
      fst (comments_loop env 0 ts tr) ! k =
        (ts ! k)\<lparr>comments := comments (fst (comments_loop env 0 ts tr) ! k)\<rparr> \<and>
      (tweetUrl (ts ! k) \<noteq> '''' \<longrightarrow>
         comments (fst (comments_loop env 0 ts tr) ! k) =
           fst (scrapeComments env (calls_before env ts tr k)
                  (tweetUrl (fst (comments_loop env 0 ts tr) ! k)))) \<and>
      (tweetUrl (ts ! k) = '''' \<longrightarrow> fst (comments_loop env 0 ts tr) ! k = ts ! k)"
    by (simp add: comments_loop_nth0 turn_def)
  have b: "\<forall>res. fst (scrapeTweets_try env n) = Inr res \<longrightarrow>
      (\<exists>i ts rest.
         inject_collect env [Query, InjectCount i n, InjectCollect i] = Resolves (Some ts # rest) \<and>
         res = fst (comments_loop env 0 ts [Query, InjectCount i n, InjectCollect i]))"
    by (cases rule: scrapeTweets_try_cases[of env n]) (auto split: promise.splits)
  from a b comments_loop_urls[of env ts tr] show ?thesis by simp
qed

theorem replies_attach_in_place_witness:
  "(1::nat) < length [tweet_a, tweet_b] \<and>
   tweetUrl ([tweet_a, tweet_b] ! 1) \<noteq> '''' \<and>
   map tweetUrl (fst (comments_loop steady 0 [tweet_a, tweet_b] [])) =
     [''/ann/status/1'', ''/bob/status/2''] \<and>
   fst (comments_loop steady 0 [tweet_a, tweet_b] []) ! 1 = tweet_b\<lparr>comments := [reply_c]\<rparr>"
proof -
  let ?res = "fst (comments_loop steady 0 [tweet_a, tweet_b] [])"
  note t = replies_attach_in_place[of steady "[tweet_a, tweet_b]" "[]" 50]
  have k: "(1::nat) < length [tweet_a, tweet_b]" by simp
  have u: "tweetUrl ([tweet_a, tweet_b] ! 1) \<noteq> ''''" by (simp add: tweet_b_def)
  have s: "fst (scrapeComments steady (calls_before steady [tweet_a, tweet_b] [] 1) url) = [reply_c]"
    for url
    by (simp add: scrapeComments_def scrapeComments_try_def steady_def open_tab_def)
  from t have m: "map tweetUrl ?res = map tweetUrl [tweet_a, tweet_b]" by blast
  from t k have f: "?res ! 1 = ([tweet_a, tweet_b] ! 1)\<lparr>comments := comments (?res ! 1)\<rparr>"
    by blast
  from t k u have "comments (?res ! 1) =
      fst (scrapeComments steady (calls_before steady [tweet_a, tweet_b] [] 1) (tweetUrl (?res ! 1)))"
    by blast
  with s have "comments (?res ! 1) = [reply_c]" by simp
  with f have "?res ! 1 = tweet_b\<lparr>comments := [reply_c]\<rparr>" by simp
  with k u m show ?thesis by (simp add: tweet_a_def tweet_b_def)
qed

text \<open>
  Claim C4, as amended. In a run that reaches the loop, if the fetch for tweet \<open>k\<close> throws,
  the loop still leaves all the tweets, tweet \<open>k\<close> with no comments and otherwise as it
  was, and every other tweet as its own turn makes it; the run resolves with that array
  unless the navigation back rejects, in which case it fails with that rejection.
\<close>
theorem fetch_failure_is_isolated:
  assumes "tabs_query env [Query] = Resolves (tab # others)" "tab_id tab = Some i" "i \<noteq> 0"
    and "inject_count env [Query, InjectCount i n] = Resolves ()"
    and "inject_collect env [Query, InjectCount i n, InjectCollect i] = Resolves (Some ts # rest)"
    and "k < length ts" "tweetUrl (ts ! k) \<noteq> ''''"
    and "fst (scrapeComments_try env
           (calls_before env ts [Query, InjectCount i n, InjectCollect i] k)
           (tweetUrl (ts ! k))) = Inl e"
  shows
    "length (fst (comments_loop env 0 ts [Query, InjectCount i n, InjectCollect i])) = length ts \<and>
     fst (comments_loop env 0 ts [Query, InjectCount i n, InjectCollect i]) ! k =
       (ts ! k)\<lparr>comments := []\<rparr> \<and>
     (\<forall>j<length ts. j \<noteq> k \<longrightarrow>
        fst (comments_loop env 0 ts [Query, InjectCount i n, InjectCollect i]) ! j =
          turn env (calls_before env ts [Query, InjectCount i n, InjectCollect i] j) (ts ! j)) \<and>
     fst (scrapeTweets_try env n) =
       (case restoring env tab i
               (snd (comments_loop env 0 ts [Query, InjectCount i n, InjectCollect i])) of
          Rejects m \<Rightarrow> Inl (Rejection m)
        | Resolves _ \<Rightarrow>
            Inr (fst (comments_loop env 0 ts [Query, InjectCount i n, InjectCollect i])))"
proof -
  let ?tr = "[Query, InjectCount i n, InjectCollect i]"
  from assms(6) have ne: "ts \<noteq> []" by auto
  have k: "fst (comments_loop env 0 ts ?tr) ! k = (ts ! k)\<lparr>comments := []\<rparr>"
    using comments_loop_nth0[OF assms(6), of env ?tr] assms(7) scrapeComments_caught[OF assms(8)]
    by (simp add: turn_def)
  have j: "\<forall>j<length ts. j \<noteq> k \<longrightarrow>
        fst (comments_loop env 0 ts ?tr) ! j = turn env (calls_before env ts ?tr j) (ts ! j)"
    by (simp add: comments_loop_nth0)
  from k j scrapeTweets_try_loop[OF assms(1-5) ne] show ?thesis by simp
qed

theorem fetch_failure_is_isolated_witness:
  "tabs_query second_fetch_fails [Query] = Resolves (open_tab # []) \<and> tab_id open_tab = Some 7 \<and>
   (7::int) \<noteq> 0 \<and>
   inject_count second_fetch_fails [Query, InjectCount 7 50] = Resolves () \<and>
   inject_collect second_fetch_fails [Query, InjectCount 7 50, InjectCollect 7] =
     Resolves (Some [tweet_a, tweet_b] # []) \<and>
   (1::nat) < length [tweet_a, tweet_b] \<and> tweetUrl ([tweet_a, tweet_b] ! 1) \<noteq> '''' \<and>
   fst (scrapeComments_try second_fetch_fails
          (calls_before second_fetch_fails [tweet_a, tweet_b]
             [Query, InjectCount 7 50, InjectCollect 7] 1)
          (tweetUrl ([tweet_a, tweet_b] ! 1))) =
     Inl (Rejection ''Tabs cannot be edited right now (user may be dragging a tab).'') \<and>
   fst (scrapeTweets_try second_fetch_fails 50) =
     Inr [tweet_a\<lparr>comments := [reply_c]\<rparr>, tweet_b\<lparr>comments := []\<rparr>]"
proof -
  have q: "tabs_query second_fetch_fails [Query] = Resolves (open_tab # [])"
    "tab_id open_tab = Some 7" "(7::int) \<noteq> 0"
    "inject_count second_fetch_fails [Query, InjectCount 7 50] = Resolves ()"
    "inject_collect second_fetch_fails [Query, InjectCount 7 50, InjectCollect 7] =
       Resolves (Some [tweet_a, tweet_b] # [])"
    "(1::nat) < length [tweet_a, tweet_b]" "tweetUrl ([tweet_a, tweet_b] ! 1) \<noteq> ''''"
    by (simp_all add: second_fetch_fails_def steady_def open_tab_def tweet_b_def)
  have f: "fst (scrapeComments_try second_fetch_fails
          (calls_before second_fetch_fails [tweet_a, tweet_b]
             [Query, InjectCount 7 50, InjectCollect 7] 1)
          (tweetUrl ([tweet_a, tweet_b] ! 1))) =
     Inl (Rejection ''Tabs cannot be edited right now (user may be dragging a tab).'')"
    by code_simp
  have r: "restoring second_fetch_fails open_tab 7
      (snd (comments_loop second_fetch_fails 0 [tweet_a, tweet_b]
         [Query, InjectCount 7 50, InjectCollect 7])) = Resolves ()"
    by (simp add: restoring_def second_fetch_fails_def steady_def open_tab_def)
  have v: "fst (comments_loop second_fetch_fails 0 [tweet_a, tweet_b]
         [Query, InjectCount 7 50, InjectCollect 7]) =
       [tweet_a\<lparr>comments := [reply_c]\<rparr>, tweet_b\<lparr>comments := []\<rparr>]"
    by code_simp
  from fetch_failure_is_isolated[OF q f] r v q f show ?thesis by simp
qed

text \<open>
  Claim C4 as stated fails: when every navigation is refused, the fetch for the first tweet
  throws and is caught, but the navigation back is refused as well, and the run ends in an
  error with no scraped data.
\<close>

theorem fetch_failure_then_restoring_fails_counterexample:
  "fst (scrapeComments_try dragging [Query, InjectCount 7 50, InjectCollect 7] ''/ann/status/1'') =
     Inl (Rejection ''Tabs cannot be edited right now (user may be dragging a tab).'') \<and>
   scrapeTweets_try dragging 50 =
     (Inl (Rejection ''Tabs cannot be edited right now (user may be dragging a tab).''),
      [Query, InjectCount 7 50, InjectCollect 7,
       Query, Update 7 ''https://twitter.com/ann/status/1'',
       Query, Update 7 ''https://twitter.com/bob/status/2'',
       Update 7 ''https://twitter.com/home'']) \<and>
   scrapedData (fst (scrapeTweets dragging idle)) = None"
  by code_simp

text \<open>
  Claim C10, as amended. A run whose first query gives a tab with an id never fails with
  "No active tab found". A fetch that finds no tab returns no comments and makes no call
  but its query. In a run that reaches the loop, every tweet with a URL whose fetch finds
  no tab is left with no comments, the array keeps its length, and the run resolves with it
  unless the navigation back rejects, in which case it fails with that rejection.
\<close>
theorem tab_lost_in_loop:
  "(tabs_query env [Query] = Resolves (tab # others) \<and> tab_id tab = Some i \<and> i \<noteq> 0 \<longrightarrow>
      fst (scrapeTweets_try env n) \<noteq> Inl (Error ''No active tab found'')) \<and>
   (no_tab_at env tr \<longrightarrow> scrapeComments env tr url = ([], tr @ [Query])) \<and>
   (tabs_query env [Query] = Resolves (tab # others) \<and> tab_id tab = Some i \<and> i \<noteq> 0 \<and>
    inject_count env [Query, InjectCount i n] = Resolves () \<and>
    inject_collect env [Query, InjectCount i n, InjectCollect i] = Resolves (Some ts # rest) \<and>
    ts \<noteq> [] \<longrightarrow>
      length (fst (comments_loop env 0 ts [Query, InjectCount i n, InjectCollect i])) = length ts \<and>
      (\<forall>k<length ts.
         tweetUrl (ts ! k) \<noteq> '''' \<and>
         no_tab_at env (calls_before env ts [Query, InjectCount i n, InjectCollect i] k) \<longrightarrow>
         fst (comments_loop env 0 ts [Query, InjectCount i n, InjectCollect i]) ! k =
           (ts ! k)\<lparr>comments := []\<rparr>) \<and>
      fst (scrapeTweets_try env n) =
        (case restoring env tab i
                (snd (comments_loop env 0 ts [Query, InjectCount i n, InjectCollect i])) of
           Rejects m \<Rightarrow> Inl (Rejection m)
         | Resolves _ \<Rightarrow>
             Inr (fst (comments_loop env 0 ts [Query, InjectCount i n, InjectCollect i]))))"
proof -
  let ?tr = "[Query, InjectCount i n, InjectCollect i]"
  have a: "fst (scrapeTweets_try env n) \<noteq> Inl (Error ''No active tab found'')"
    if "tabs_query env [Query] = Resolves (tab # others)" "tab_id tab = Some i" "i \<noteq> 0"
    using that
    by (cases rule: scrapeTweets_try_cases[of env n]) (auto split: promise.splits)
  have b: "\<forall>k<length ts. tweetUrl (ts ! k) \<noteq> '''' \<and> no_tab_at env (calls_before env ts ?tr k) \<longrightarrow>
         fst (comments_loop env 0 ts ?tr) ! k = (ts ! k)\<lparr>comments := []\<rparr>"
    by (simp add: comments_loop_nth0 turn_def no_tab_at_caught)
  from a b no_tab_at_caught[of env tr url] scrapeTweets_try_loop[of env tab others i n ts rest]
  show ?thesis by simp
qed

theorem tab_lost_in_loop_witness:
  "tabs_query tab_lost_once [Query] = Resolves (open_tab # []) \<and> tab_id open_tab = Some 7 \<and>
   (7::int) \<noteq> 0 \<and>
   inject_count tab_lost_once [Query, InjectCount 7 50] = Resolves () \<and>
   inject_collect tab_lost_once [Query, InjectCount 7 50, InjectCollect 7] =
     Resolves (Some [tweet_a, tweet_b] # []) \<and>
   [tweet_a, tweet_b] \<noteq> [] \<and>
   (0::nat) < length [tweet_a, tweet_b] \<and> tweetUrl ([tweet_a, tweet_b] ! 0) \<noteq> '''' \<and>
   no_tab_at tab_lost_once
     (calls_before tab_lost_once [tweet_a, tweet_b] [Query, InjectCount 7 50, InjectCollect 7] 0) \<and>
   fst (scrapeTweets_try tab_lost_once 50) \<noteq> Inl (Error ''No active tab found'') \<and>
   fst (comments_loop tab_lost_once 0 [tweet_a, tweet_b]
          [Query, InjectCount 7 50, InjectCollect 7]) ! 0 = tweet_a\<lparr>comments := []\<rparr> \<and>
   fst (scrapeTweets_try tab_lost_once 50) =
     Inr (fst (comments_loop tab_lost_once 0 [tweet_a, tweet_b]
            [Query, InjectCount 7 50, InjectCollect 7]))"
proof -
  let ?tr = "[Query, InjectCount 7 50, InjectCollect 7]"
  have q: "tabs_query tab_lost_once [Query] = Resolves (open_tab # [])"
    "tab_id open_tab = Some 7" "(7::int) \<noteq> 0"
    "inject_count tab_lost_once [Query, InjectCount 7 50] = Resolves ()"
    "inject_collect tab_lost_once ?tr = Resolves (Some [tweet_a, tweet_b] # [])"
    "[tweet_a, tweet_b] \<noteq> []"
    "(0::nat) < length [tweet_a, tweet_b]" "tweetUrl ([tweet_a, tweet_b] ! 0) \<noteq> ''''"
    by (simp_all add: tab_lost_once_def steady_def open_tab_def tweet_a_def)
  have l: "no_tab_at tab_lost_once (calls_before tab_lost_once [tweet_a, tweet_b] ?tr 0)"
    by code_simp
  have r: "restoring tab_lost_once open_tab 7 tr = Resolves ()" for tr
    by (simp add: restoring_def tab_lost_once_def steady_def open_tab_def)
  note t = tab_lost_in_loop[of tab_lost_once open_tab "[]" 7 50 _ _ "[tweet_a, tweet_b]" "[]"]
  from t q have n: "fst (scrapeTweets_try tab_lost_once 50) \<noteq> Inl (Error ''No active tab found'')"
    by blast
  from t q l have z: "fst (comments_loop tab_lost_once 0 [tweet_a, tweet_b] ?tr) ! 0 =
      ([tweet_a, tweet_b] ! 0)\<lparr>comments := []\<rparr>"
    by blast
  from t q r have "fst (scrapeTweets_try tab_lost_once 50) =
     Inr (fst (comments_loop tab_lost_once 0 [tweet_a, tweet_b] ?tr))"
    by simp
  with q l n z show ?thesis by simp
qed

text \<open>
  Claim C10 as stated fails: when the tab is closed after the collection, the fetches find
  no tab and are absorbed, but the navigation back to the closed tab rejects, and the run
  ends in an error with no scraped data.
\<close>

theorem tab_closed_run_fails_counterexample:
  "no_tab_at tab_closed [Query, InjectCount 7 50, InjectCollect 7] \<and>
   scrapeTweets_try tab_closed 50 =
     (Inl (Rejection ''No tab with id: 7.''),
      [Query, InjectCount 7 50, InjectCollect 7, Query, Query,
       Update 7 ''https://twitter.com/home'']) \<and>
   scrapedData (fst (scrapeTweets tab_closed idle)) = None \<and>
   error (fst (scrapeTweets tab_closed idle)) = Some ''Error scraping tweets: No tab with id: 7.''"
  by code_simp

section \<open>The export: lemmas and claim\<close>

lemma unkeyed_format_comment: "unkeyed (format_comment c) = unkeyed (reply_shape c)"
  by (simp add: format_comment_def reply_shape_def)

lemma unkeyed_format_tweet: "unkeyed (format_tweet t) = unkeyed (item_shape t)"
  by (simp add: format_tweet_def item_shape_def unkeyed_format_comment)

text \<open>
  Claim C9, as amended. With no scraped data nothing is exported. Otherwise the exported
  record has the keys \<open>totalTweets\<close>, \<open>searchItem\<close>, \<open>scrapeTimestamp\<close>, \<open>tweets\<close>:
  the search term and the time of the export stand beside the harvest, and without those two
  keys the record is the specification's nested record, key names aside. The names the
  source gives the keys are \<open>content\<close>, \<open>metadata\<close> (\<open>author\<close>, \<open>postedAt\<close>,
  \<open>engagement\<close> (\<open>likes\<close>, \<open>retweets\<close>, \<open>commentCount\<close>), \<open>url\<close>) and \<open>comments\<close>
  for a tweet, and \<open>content\<close>, \<open>metadata\<close> (\<open>author\<close>, \<open>postedAt\<close>, \<open>engagement\<close>
  (\<open>likes\<close>, \<open>replies\<close>)) for a comment.
\<close>
theorem export_shape:
  "(scrapedData s = None \<longrightarrow> copyJsonToClipboard s now = None) \<and>
   (scrapedData s = Some ts \<longrightarrow>
      (\<exists>j. copyJsonToClipboard s now = Some j \<and>
         keys j = [''totalTweets'', ''searchItem'', ''scrapeTimestamp'', ''tweets''] \<and>
         field ''searchItem'' j = Some (JString (searchTerm s)) \<and>
         field ''scrapeTimestamp'' j = Some (JString now) \<and>
         field ''tweets'' j = Some (JArray (map format_tweet ts)) \<and>
         unkeyed (without [''searchItem'', ''scrapeTimestamp''] j) = unkeyed (harvest_shape ts))) \<and>
   keys (format_tweet t) = [''content'', ''metadata'', ''comments''] \<and>
   map_option keys (field ''metadata'' (format_tweet t)) =
     Some [''author'', ''postedAt'', ''engagement'', ''url''] \<and>
   map_option keys (Option.bind (field ''metadata'' (format_tweet t)) (field ''engagement'')) =
     Some [''likes'', ''retweets'', ''commentCount''] \<and>
   field ''comments'' (format_tweet t) = Some (JArray (map format_comment (comments t))) \<and>
   keys (format_comment c) = [''content'', ''metadata''] \<and>
   map_option keys (field ''metadata'' (format_comment c)) =
     Some [''author'', ''postedAt'', ''engagement''] \<and>
   map_option keys (Option.bind (field ''metadata'' (format_comment c)) (field ''engagement'')) =
     Some [''likes'', ''replies'']"
proof -
  have a: "scrapedData s = None \<longrightarrow> copyJsonToClipboard s now = None"
    by (simp add: copyJsonToClipboard_def)
  have b: "scrapedData s = Some ts \<longrightarrow>
      (\<exists>j. copyJsonToClipboard s now = Some j \<and>
         keys j = [''totalTweets'', ''searchItem'', ''scrapeTimestamp'', ''tweets''] \<and>
         field ''searchItem'' j = Some (JString (searchTerm s)) \<and>
         field ''scrapeTimestamp'' j = Some (JString now) \<and>
         field ''tweets'' j = Some (JArray (map format_tweet ts)) \<and>
         unkeyed (without [''searchItem'', ''scrapeTimestamp''] j) = unkeyed (harvest_shape ts))"
    by (simp add: copyJsonToClipboard_def formattedData_def harvest_shape_def
        unkeyed_format_tweet)
  have c: "keys (format_tweet t) = [''content'', ''metadata'', ''comments'']"
    "map_option keys (field ''metadata'' (format_tweet t)) =
       Some [''author'', ''postedAt'', ''engagement'', ''url'']"
    "map_option keys (Option.bind (field ''metadata'' (format_tweet t)) (field ''engagement'')) =
       Some [''likes'', ''retweets'', ''commentCount'']"
    "field ''comments'' (format_tweet t) = Some (JArray (map format_comment (comments t)))"
    by (simp_all add: format_tweet_def)
  have d: "keys (format_comment c) = [''content'', ''metadata'']"
    "map_option keys (field ''metadata'' (format_comment c)) =
       Some [''author'', ''postedAt'', ''engagement'']"
    "map_option keys (Option.bind (field ''metadata'' (format_comment c)) (field ''engagement'')) =
       Some [''likes'', ''replies'']"
    by (simp_all add: format_comment_def)
  from a b c d show ?thesis by blast
qed

theorem export_shape_witness:
  "scrapedData shown = Some [tweet_a\<lparr>comments := [reply_c]\<rparr>] \<and>
   map_option keys (copyJsonToClipboard shown ''2024-05-02T08:00:00.000Z'') =
     Some [''totalTweets'', ''searchItem'', ''scrapeTimestamp'', ''tweets''] \<and>
   map_option (\<lambda>j. unkeyed (without [''searchItem'', ''scrapeTimestamp''] j))
     (copyJsonToClipboard shown ''2024-05-02T08:00:00.000Z'') =
     Some (unkeyed (harvest_shape [tweet_a\<lparr>comments := [reply_c]\<rparr>]))"
proof -
  have h: "scrapedData shown = Some [tweet_a\<lparr>comments := [reply_c]\<rparr>]"
    by (simp add: shown_def)
  from export_shape[of shown "''2024-05-02T08:00:00.000Z''" "[tweet_a\<lparr>comments := [reply_c]\<rparr>]"] h
  show ?thesis by auto
qed

text \<open>
  Claim C9 as stated fails: the exported record has four keys at the top where the
  specification's has two, so the two differ even with key names aside.
\<close>

theorem export_extra_keys_counterexample:
  "map_option keys (copyJsonToClipboard shown ''2024-05-02T08:00:00.000Z'') =
     Some [''totalTweets'', ''searchItem'', ''scrapeTimestamp'', ''tweets''] \<and>
   keys (harvest_shape [tweet_a\<lparr>comments := [reply_c]\<rparr>]) = [''totalItems'', ''items''] \<and>
   map_option unkeyed (copyJsonToClipboard shown ''2024-05-02T08:00:00.000Z'') \<noteq>
     Some (unkeyed (harvest_shape [tweet_a\<lparr>comments := [reply_c]\<rparr>]))"
  by (simp add: copyJsonToClipboard_def formattedData_def harvest_shape_def shown_def)

end
